theory Spec2Isabelle
  imports
    Main
    "HOL-Library.Word"
    "HOL-Library.Multiset"
    "HOL-Library.Char_ord"
    "HOL-Library.List_Lexorder"
    "HOL-Library.Product_Lexorder"
begin

unbundle bit_operations_syntax

section \<open>Keyboard layouts (keyboard.go)\<close>

subsection \<open>Data model\<close>

text \<open>
  Go values the engine only stores and copies are modelled by what identifies them:
  a \<^verbatim>\<open>float64\<close> by its IEEE-754 bit pattern, a \<^verbatim>\<open>time.Time\<close> by its Unix time in
  nanoseconds (the value \<^verbatim>\<open>UnixNano\<close> returns), an \<^verbatim>\<open>int\<close> that is never computed
  with by its mathematical value. Strings are byte lists, as in Go.
\<close>

type_synonym float64 = "64 word"
type_synonym Time = int

text \<open>
  A Go map is either \<^verbatim>\<open>nil\<close> or a table. Reading a nil map finds nothing, deleting from
  it does nothing, and assigning to an entry of it panics. \<open>None\<close> is the nil map.
  No two entries of a layout share storage (every list and table the engine stores was
  freshly allocated by \<^verbatim>\<open>make\<close>, by \<^verbatim>\<open>append\<close> to a nil slice or by the JSON decoder),
  so an update through one entry is the replacement of that entry.
\<close>

type_synonym ('k, 'v) gomap = "('k \<Rightarrow> 'v option) option"

datatype panic = AssignmentToEntryInNilMap

definition mapIndex :: "('k, 'v) gomap \<Rightarrow> 'k \<Rightarrow> 'v option" where
  "mapIndex m k = (case m of None \<Rightarrow> None | Some t \<Rightarrow> t k)"

definition mapAssign :: "('k, 'v) gomap \<Rightarrow> 'k \<Rightarrow> 'v \<Rightarrow> panic + ('k, 'v) gomap" where
  "mapAssign m k v =
     (case m of None \<Rightarrow> Inl AssignmentToEntryInNilMap | Some t \<Rightarrow> Inr (Some (t(k \<mapsto> v))))"

definition mapDelete :: "('k, 'v) gomap \<Rightarrow> 'k \<Rightarrow> ('k, 'v) gomap" where
  "mapDelete m k = (case m of None \<Rightarrow> None | Some t \<Rightarrow> Some (t(k := None)))"

text \<open>
  A list or table that was found under \<open>m[k]\<close> and then written in place: the table \<open>m\<close>
  shows the written value \<open>v\<close> under \<open>k\<close>. (It was found, so \<open>m\<close> is not nil.)
\<close>

definition mapWritten :: "('k, 'v) gomap \<Rightarrow> 'k \<Rightarrow> 'v \<Rightarrow> ('k, 'v) gomap" where
  "mapWritten m k v = (case m of None \<Rightarrow> None | Some t \<Rightarrow> Some (t(k \<mapsto> v)))"

record Key =
  ID :: string
  Label :: string
  ImagePath :: string
  ImageData :: string
  Description :: string
  Color :: string
  Layer :: string
  Modifiers :: "string list"
  Row :: int
  Col :: int
  Side :: string
  KeyType :: string
  CustomX :: float64
  CustomY :: float64
  IsCustomPosition :: bool

record KeyboardLayout =
  Name :: string
  LayoutDescription :: string
  Layers :: "(string, Key list) gomap"
  ModifierMaps :: "(string, (string, Key list) gomap) gomap"
  CreatedAt :: Time
  ModifiedAt :: Time

subsection \<open>The combination canonicalizer\<close>

text \<open>
  \<^verbatim>\<open>GetKeysForActiveModifiers\<close> and \<^verbatim>\<open>UpdateModifierKeyByActiveModifiers\<close> hold the same
  lines (keyboard.go 441-473 and 540-572): copy the active modifiers, sort the copy in
  place with two nested index loops, join it with \<open>+\<close>. They are modelled once.
\<close>

definition modOrder :: "string \<Rightarrow> int option" where
  "modOrder = [''ctrl'' \<mapsto> 0, ''shift'' \<mapsto> 1, ''alt'' \<mapsto> 2, ''gui'' \<mapsto> 3]"

text \<open>\<^verbatim>\<open>s[i], s[j] = s[j], s[i]\<close>\<close>

definition swap :: "nat \<Rightarrow> nat \<Rightarrow> 'a list \<Rightarrow> 'a list" where
  "swap i j s = s[i := s ! j, j := s ! i]"

text \<open>The body of the inner loop, at indices \<open>i < j < length s\<close>.\<close>

definition sortStep :: "nat \<Rightarrow> nat \<Rightarrow> string list \<Rightarrow> string list" where
  "sortStep i j s =
     (case (modOrder (s ! i), modOrder (s ! j)) of
        (Some orderI, Some orderJ) \<Rightarrow> if orderI > orderJ then swap i j s else s
      | (Some orderI, None) \<Rightarrow> s
      | (None, Some orderJ) \<Rightarrow> swap i j s
      | (None, None) \<Rightarrow> if s ! i > s ! j then swap i j s else s)"

lemma length_sortStep: "length (sortStep i j s) = length s"
  by (simp add: sortStep_def swap_def split: option.splits)

text \<open>\<^verbatim>\<open>for j := i + 1; j < len(sortedMods); j++\<close>, entered with \<open>j\<close>.\<close>

function sortInner :: "nat \<Rightarrow> nat \<Rightarrow> string list \<Rightarrow> string list" where
  "sortInner i j s = (if j < length s then sortInner i (j + 1) (sortStep i j s) else s)"
  by pat_completeness auto
termination
  by (relation "measure (\<lambda>(i, j, s). length s - j)") (auto simp: length_sortStep)

declare sortInner.simps [simp del]

lemma length_sortInner: "length (sortInner i j s) = length s"
  by (induction i j s rule: sortInner.induct)
     (subst sortInner.simps, simp add: length_sortStep)

text \<open>\<^verbatim>\<open>for i := 0; i < len(sortedMods); i++\<close>, entered with \<open>i\<close>.\<close>

function sortOuter :: "nat \<Rightarrow> string list \<Rightarrow> string list" where
  "sortOuter i s = (if i < length s then sortOuter (i + 1) (sortInner i (i + 1) s) else s)"
  by pat_completeness auto
termination
  by (relation "measure (\<lambda>(i, s). length s - i)") (auto simp: length_sortInner)

declare sortOuter.simps [simp del]

text \<open>\<^verbatim>\<open>sortedMods\<close> after the loops, and \<^verbatim>\<open>strings.Join\<close>.\<close>

definition sortedMods :: "string list \<Rightarrow> string list" where
  "sortedMods activeModifiers = sortOuter 0 activeModifiers"

fun Join :: "string list \<Rightarrow> string \<Rightarrow> string" where
  "Join [] sep = []"
| "Join [e] sep = e"
| "Join (e # e' # es) sep = e @ sep @ Join (e' # es) sep"

definition comboKey :: "string list \<Rightarrow> string" where
  "comboKey activeModifiers = Join (sortedMods activeModifiers) ''+''"

text \<open>
  The specification's words for the canonical order of a set \<open>M\<close> of modifier names:
  the built-in names that are in \<open>M\<close>, in the fixed priority order, followed by the other
  names of \<open>M\<close> in lexicographic (bytewise) order.
\<close>

definition builtinModifiers :: "string list" where
  "builtinModifiers = [''ctrl'', ''shift'', ''alt'', ''gui'']"

definition canonical_spec :: "string set \<Rightarrow> string list" where
  "canonical_spec M =
     filter (\<lambda>b. b \<in> M) builtinModifiers @ sorted_list_of_set (M - set builtinModifiers)"

text \<open>
  The sort key that the four-way comparison of \<open>sortStep\<close> realises: a built-in name is
  ranked by its priority, a custom name after all of them and by the name itself.
\<close>

definition modKey :: "string \<Rightarrow> int \<times> string" where
  "modKey m = (case modOrder m of Some k \<Rightarrow> (k, []) | None \<Rightarrow> (4, m))"

subsection \<open>Blank variants\<close>

text \<open>
  The key literal that \<^verbatim>\<open>generateAllModifierCombinations\<close> (keyboard.go 345-361),
  \<^verbatim>\<open>GetKeysForActiveModifiers\<close> (487-503) and \<^verbatim>\<open>UpdateModifierKeyByActiveModifiers\<close>
  (583-599) each build for every key of the base list.
\<close>

definition blankKey :: "string list \<Rightarrow> Key \<Rightarrow> Key" where
  "blankKey mods baseKey =
     \<lparr> ID = ID baseKey,
       Label = [],
       ImagePath = [],
       ImageData = [],
       Description = [],
       Color = ''#e0e0e0'',
       Layer = Layer baseKey,
       Modifiers = mods,
       Row = Row baseKey,
       Col = Col baseKey,
       Side = Side baseKey,
       KeyType = KeyType baseKey,
       CustomX = CustomX baseKey,
       CustomY = CustomY baseKey,
       IsCustomPosition = IsCustomPosition baseKey \<rparr>"

definition blankKeys :: "string list \<Rightarrow> Key list \<Rightarrow> Key list" where
  "blankKeys mods baseKeys = map (blankKey mods) baseKeys"

text \<open>
  What it is for \<open>variant\<close> to be a blank clone of \<open>baseKeys\<close> tagged with \<open>mods\<close>:
  the same keys in the same order with their identity, layer and placement (row, column,
  side, key type, and the custom position with its flag), an empty label, image path,
  image and description, the neutral colour, and \<open>mods\<close> as modifiers.
\<close>

definition blankCloneOf :: "string list \<Rightarrow> Key list \<Rightarrow> Key list \<Rightarrow> bool" where
  "blankCloneOf mods baseKeys variant \<longleftrightarrow>
     length variant = length baseKeys \<and>
     (\<forall>i<length baseKeys.
        ID (variant ! i) = ID (baseKeys ! i) \<and>
        Layer (variant ! i) = Layer (baseKeys ! i) \<and>
        Row (variant ! i) = Row (baseKeys ! i) \<and>
        Col (variant ! i) = Col (baseKeys ! i) \<and>
        Side (variant ! i) = Side (baseKeys ! i) \<and>
        KeyType (variant ! i) = KeyType (baseKeys ! i) \<and>
        Label (variant ! i) = [] \<and>
        ImagePath (variant ! i) = [] \<and>
        ImageData (variant ! i) = [] \<and>
        Description (variant ! i) = [] \<and>
        Color (variant ! i) = ''#e0e0e0'' \<and>
        Modifiers (variant ! i) = mods \<and>
        CustomX (variant ! i) = CustomX (baseKeys ! i) \<and>
        CustomY (variant ! i) = CustomY (baseKeys ! i) \<and>
        IsCustomPosition (variant ! i) = IsCustomPosition (baseKeys ! i))"

subsection \<open>Eager generation of the built-in combinations\<close>

text \<open>
  \<^verbatim>\<open>numCombos := 1 << len(modifiers)\<close> on Go's 64-bit \<^verbatim>\<open>int\<close>, and the modifiers whose
  bit is set in \<open>i\<close>. The shift that computes \<open>numCombos\<close> wraps as in Go: with 63
  modifiers it is negative and with more it is 0, so the loop body runs only for at most 62
  modifiers and \<open>0 \<le> i < numCombos\<close>, where \<^verbatim>\<open>1 << j\<close> does not wrap.
\<close>

definition numCombos :: "string list \<Rightarrow> int" where
  "numCombos modifiers = sint (push_bit (length modifiers) (1 :: 64 word))"

definition activeModsOf :: "int \<Rightarrow> string list \<Rightarrow> string list" where
  "activeModsOf i modifiers =
     map snd (filter (\<lambda>(j, m). i AND push_bit j 1 \<noteq> 0) (enumerate 0 modifiers))"

text \<open>
  One round of the loop. \<^verbatim>\<open>kl.ModifierMaps[layerName][comboKey] = comboKeys\<close> reads the
  layer's table (nil when the layer has none) and assigns into it.
\<close>

definition generateStep ::
  "KeyboardLayout \<Rightarrow> string \<Rightarrow> Key list \<Rightarrow> string list \<Rightarrow> int \<Rightarrow> panic + KeyboardLayout" where
  "generateStep kl layerName baseKeys modifiers i =
     (let activeMods = activeModsOf i modifiers in
      if length activeMods = 0 then Inr kl
      else
        (case mapAssign
                (case mapIndex (ModifierMaps kl) layerName of Some layerMods \<Rightarrow> layerMods | None \<Rightarrow> None)
                (Join activeMods ''+'') (blankKeys activeMods baseKeys) of
           Inl p \<Rightarrow> Inl p
         | Inr layerMods' \<Rightarrow>
             Inr (kl\<lparr>ModifierMaps := mapWritten (ModifierMaps kl) layerName layerMods'\<rparr>)))"

function generateLoop ::
  "KeyboardLayout \<Rightarrow> string \<Rightarrow> Key list \<Rightarrow> string list \<Rightarrow> int \<Rightarrow> panic + KeyboardLayout" where
  "generateLoop kl layerName baseKeys modifiers i =
     (if i < numCombos modifiers then
        (case generateStep kl layerName baseKeys modifiers i of
           Inl p \<Rightarrow> Inl p
         | Inr kl' \<Rightarrow> generateLoop kl' layerName baseKeys modifiers (i + 1))
      else Inr kl)"
  by pat_completeness auto
termination
  by (relation "measure (\<lambda>(kl, layerName, baseKeys, modifiers, i). nat (numCombos modifiers - i))") auto

declare generateLoop.simps [simp del]

definition generateAllModifierCombinations ::
  "KeyboardLayout \<Rightarrow> string \<Rightarrow> Key list \<Rightarrow> string list \<Rightarrow> panic + KeyboardLayout" where
  "generateAllModifierCombinations kl layerName baseKeys modifiers =
     generateLoop kl layerName baseKeys modifiers 0"

subsection \<open>Layout operations\<close>

text \<open>\<^verbatim>\<open>time.Now()\<close> is the argument \<open>now\<close>. A panic ends the call.\<close>

definition GetKeysForActiveModifiers ::
  "Time \<Rightarrow> KeyboardLayout \<Rightarrow> string \<Rightarrow> string list \<Rightarrow> panic + Key list \<times> KeyboardLayout" where
  "GetKeysForActiveModifiers now kl layer activeModifiers =
     (if length activeModifiers = 0 then
        (case mapIndex (Layers kl) layer of
           Some keys \<Rightarrow> Inr (keys, kl)
         | None \<Rightarrow> Inr ([], kl))
      else
        (case mapIndex (ModifierMaps kl) layer of
           Some layerMods \<Rightarrow>
             (case mapIndex layerMods (comboKey activeModifiers) of
                Some keys \<Rightarrow> Inr (keys, kl)
              | None \<Rightarrow>
                  (case mapIndex (Layers kl) layer of
                     Some baseKeys \<Rightarrow>
                       (case mapAssign layerMods (comboKey activeModifiers)
                               (blankKeys (sortedMods activeModifiers) baseKeys) of
                          Inl p \<Rightarrow> Inl p
                        | Inr layerMods' \<Rightarrow>
                            Inr (blankKeys (sortedMods activeModifiers) baseKeys,
                                 kl\<lparr>ModifierMaps := mapWritten (ModifierMaps kl) layer layerMods',
                                    ModifiedAt := now\<rparr>))
                   | None \<Rightarrow> Inr ([], kl)))
         | None \<Rightarrow> Inr ([], kl)))"

text \<open>
  The search loop of \<^verbatim>\<open>UpdateKey\<close>, \<^verbatim>\<open>UpdateModifierKey\<close> and
  \<^verbatim>\<open>UpdateModifierKeyByActiveModifiers\<close>: the first key with the ID of \<open>updatedKey\<close> is
  overwritten and the loop returns; \<open>None\<close> when the loop runs out.
\<close>

fun replaceByID :: "Key \<Rightarrow> Key list \<Rightarrow> Key list option" where
  "replaceByID updatedKey [] = None"
| "replaceByID updatedKey (k # keys) =
     (if ID k = ID updatedKey then Some (updatedKey # keys)
      else map_option ((#) k) (replaceByID updatedKey keys))"

definition UpdateKey :: "Time \<Rightarrow> KeyboardLayout \<Rightarrow> string \<Rightarrow> Key \<Rightarrow> bool \<times> KeyboardLayout" where
  "UpdateKey now kl layer updatedKey =
     (case mapIndex (Layers kl) layer of
        Some keys \<Rightarrow>
          (case replaceByID updatedKey keys of
             Some keys' \<Rightarrow>
               (True, kl\<lparr>Layers := mapWritten (Layers kl) layer keys', ModifiedAt := now\<rparr>)
           | None \<Rightarrow> (False, kl))
      | None \<Rightarrow> (False, kl))"

definition UpdateModifierKeyByActiveModifiers ::
  "Time \<Rightarrow> KeyboardLayout \<Rightarrow> string \<Rightarrow> string list \<Rightarrow> Key \<Rightarrow> panic + bool \<times> KeyboardLayout" where
  "UpdateModifierKeyByActiveModifiers now kl layer activeModifiers updatedKey =
     (if length activeModifiers = 0 then Inr (UpdateKey now kl layer updatedKey)
      else
        (case mapIndex (ModifierMaps kl) layer of
           Some layerMods \<Rightarrow>
             (case
                (case mapIndex layerMods (comboKey activeModifiers) of
                   None \<Rightarrow>
                     (case mapIndex (Layers kl) layer of
                        Some baseKeys \<Rightarrow>
                          mapAssign layerMods (comboKey activeModifiers)
                            (blankKeys (sortedMods activeModifiers) baseKeys)
                      | None \<Rightarrow> Inr layerMods)
                 | Some _ \<Rightarrow> Inr layerMods) of
                Inl p \<Rightarrow> Inl p
              | Inr layerMods' \<Rightarrow>
                  (let kl' = kl\<lparr>ModifierMaps := mapWritten (ModifierMaps kl) layer layerMods'\<rparr> in
                   case mapIndex layerMods' (comboKey activeModifiers) of
                     Some keys \<Rightarrow>
                       (case replaceByID updatedKey keys of
                          Some keys' \<Rightarrow>
                            Inr (True,
                                 kl\<lparr>ModifierMaps :=
                                      mapWritten (ModifierMaps kl) layer
                                        (mapWritten layerMods' (comboKey activeModifiers) keys'),
                                    ModifiedAt := now\<rparr>)
                        | None \<Rightarrow> Inr (False, kl'))
                   | None \<Rightarrow> Inr (False, kl')))
         | None \<Rightarrow> Inr (False, kl)))"

definition AddCustomLayer ::
  "Time \<Rightarrow> KeyboardLayout \<Rightarrow> string \<Rightarrow> Key list \<Rightarrow> panic + KeyboardLayout" where
  "AddCustomLayer now kl layerName baseKeys =
     (case mapAssign (Layers kl) layerName baseKeys of
        Inl p \<Rightarrow> Inl p
      | Inr layers \<Rightarrow>
          (case mapAssign (ModifierMaps kl) layerName (Some Map.empty) of
             Inl p \<Rightarrow> Inl p
           | Inr modifierMaps \<Rightarrow>
               (case generateAllModifierCombinations
                       (kl\<lparr>Layers := layers, ModifierMaps := modifierMaps\<rparr>) layerName baseKeys
                       [''ctrl'', ''shift'', ''alt'', ''gui''] of
                  Inl p \<Rightarrow> Inl p
                | Inr kl' \<Rightarrow> Inr (kl'\<lparr>ModifiedAt := now\<rparr>))))"

definition RemoveCustomLayer :: "Time \<Rightarrow> KeyboardLayout \<Rightarrow> string \<Rightarrow> bool \<times> KeyboardLayout" where
  "RemoveCustomLayer now kl layerName =
     (if layerName = ''base'' \<or> layerName = ''lower'' \<or> layerName = ''raise'' then (False, kl)
      else
        (case mapIndex (Layers kl) layerName of
           Some _ \<Rightarrow>
             (True, kl\<lparr>Layers := mapDelete (Layers kl) layerName,
                       ModifierMaps := mapDelete (ModifierMaps kl) layerName,
                       ModifiedAt := now\<rparr>)
         | None \<Rightarrow> (False, kl)))"


section \<open>Profiles and the profile store\<close>

subsection \<open>Data model\<close>

record Profile =
  ProfileID :: string
  ProfileName :: string
  Icon :: string
  BackgroundColor :: string
  ProfileDescription :: string
  ProfileCreatedAt :: Time
  ProfileModifiedAt :: Time
  Layouts :: "KeyboardLayout list"
  CurrentLayout :: string
  CurrentLayer :: string
  ActiveModifiers :: "string list"
  ColorSchemes :: "(string, string) gomap"

record ProfileManager =
  Profiles :: "Profile list"
  ActiveProfile :: string
  LastModified :: Time

text \<open>The errors the profile code makes with \<^verbatim>\<open>fmt.Errorf\<close>, one constructor per message.\<close>

datatype error =
    CannotDeleteLastProfile
  | ProfileNotFound string
  | ProfileManagerIsNil
  | NoProfilesFound
  | ProfileHasNoLayouts string
  | HomeDirectoryFailed
  | CreateConfigDirFailed string
  | MarshalFailed
  | WriteTemporaryFileFailed
  | MoveToFinalLocationFailed

subsection \<open>Deleting a profile\<close>

text \<open>
  The index at which the loop \<^verbatim>\<open>for i, profile := range pm.Profiles\<close> of
  \<^verbatim>\<open>DeleteProfile\<close> finds the ID and returns; \<open>None\<close> when it runs out.
\<close>

fun indexOfProfile :: "string \<Rightarrow> Profile list \<Rightarrow> nat option" where
  "indexOfProfile profileID [] = None"
| "indexOfProfile profileID (profile # profiles) =
     (if ProfileID profile = profileID then Some 0
      else map_option Suc (indexOfProfile profileID profiles))"

definition DeleteProfile :: "Time \<Rightarrow> ProfileManager \<Rightarrow> string \<Rightarrow> error option \<times> ProfileManager" where
  "DeleteProfile now pm profileID =
     (if length (Profiles pm) \<le> 1 then (Some CannotDeleteLastProfile, pm)
      else
        (case indexOfProfile profileID (Profiles pm) of
           Some i \<Rightarrow>
             (let pm1 =
                (if ActiveProfile pm = profileID then
                   (if i > 0 then pm\<lparr>ActiveProfile := ProfileID (Profiles pm ! (i - 1))\<rparr>
                    else pm\<lparr>ActiveProfile := ProfileID (Profiles pm ! (i + 1))\<rparr>)
                 else pm)
              in (None, pm1\<lparr>Profiles := take i (Profiles pm1) @ drop (i + 1) (Profiles pm1),
                              LastModified := now\<rparr>))
         | None \<Rightarrow> (Some (ProfileNotFound profileID), pm)))"

subsection \<open>Validation and repair of a loaded store\<close>

text \<open>\<^verbatim>\<open>fmt.Sprintf("%d", n)\<close> for a 64-bit integer \<open>n\<close>: the decimal digits, with a sign.\<close>

function decimal :: "nat \<Rightarrow> string" where
  "decimal n =
     (if n < 10 then [''0123456789'' ! n]
      else decimal (n div 10) @ [''0123456789'' ! (n mod 10)])"
  by pat_completeness auto
termination
  by (relation "measure (\<lambda>n. n)") auto

declare decimal.simps [simp del]

definition formatInt :: "int \<Rightarrow> string" where
  "formatInt n = (if n < 0 then CHR ''-'' # decimal (nat (- n)) else decimal (nat n))"

text \<open>
  The body of the loop over the profiles, for one profile; \<open>t\<close> is what
  \<^verbatim>\<open>time.Now().UnixNano()\<close> returns if it is read for this profile.
\<close>

definition validateProfile :: "Time \<Rightarrow> Profile \<Rightarrow> error + Profile" where
  "validateProfile t profile =
     (if length (Layouts profile) = 0 then Inl (ProfileHasNoLayouts (ProfileName profile))
      else
        (let found = list_ex (\<lambda>layout. Name layout = CurrentLayout profile) (Layouts profile);
             p1 = (if \<not> found then profile\<lparr>CurrentLayout := Name (Layouts profile ! 0)\<rparr>
                   else profile);
             p2 = (case find (\<lambda>layout. Name layout = CurrentLayout p1) (Layouts p1) of
                     Some layout \<Rightarrow>
                       (if mapIndex (Layers layout) (CurrentLayer p1) = None
                        then p1\<lparr>CurrentLayer := ''base''\<rparr> else p1)
                   | None \<Rightarrow> p1);
             p3 = (if ProfileID p2 = [] then p2\<lparr>ProfileID := ''profile_'' @ formatInt t\<rparr> else p2);
             p4 = (if ProfileName p3 = [] then p3\<lparr>ProfileName := ''Unnamed Profile''\<rparr> else p3);
             p5 = (if BackgroundColor p4 = [] then p4\<lparr>BackgroundColor := ''#6366f1''\<rparr> else p4)
         in Inr p5))"

text \<open>
  \<^verbatim>\<open>for i := range pm.Profiles\<close>, entered with \<open>i\<close>; it works on the store in place and
  returns at the first profile without layouts. \<open>clock i\<close> is the clock reading for
  profile \<open>i\<close>.
\<close>

function validateLoop :: "(nat \<Rightarrow> Time) \<Rightarrow> nat \<Rightarrow> ProfileManager \<Rightarrow> error option \<times> ProfileManager" where
  "validateLoop clock i pm =
     (if i < length (Profiles pm) then
        (case validateProfile (clock i) (Profiles pm ! i) of
           Inl e \<Rightarrow> (Some e, pm)
         | Inr profile \<Rightarrow> validateLoop clock (i + 1) (pm\<lparr>Profiles := (Profiles pm)[i := profile]\<rparr>))
      else (None, pm))"
  by pat_completeness auto
termination
  by (relation "measure (\<lambda>(clock, i, pm). length (Profiles pm) - i)") auto

declare validateLoop.simps [simp del]

text \<open>The argument is the pointer \<^verbatim>\<open>pm\<close>: \<open>None\<close> is \<^verbatim>\<open>nil\<close>.\<close>

definition validateProfiles ::
  "(nat \<Rightarrow> Time) \<Rightarrow> ProfileManager option \<Rightarrow> error option \<times> ProfileManager option" where
  "validateProfiles clock pmPtr =
     (case pmPtr of
        None \<Rightarrow> (Some ProfileManagerIsNil, None)
      | Some pm \<Rightarrow>
          if length (Profiles pm) = 0 then (Some NoProfilesFound, Some pm)
          else
            (let found = list_ex (\<lambda>profile. ProfileID profile = ActiveProfile pm) (Profiles pm);
                 pm1 = (if \<not> found then pm\<lparr>ActiveProfile := ProfileID (Profiles pm ! 0)\<rparr> else pm)
             in case validateLoop clock 0 pm1 of (e, pm2) \<Rightarrow> (e, Some pm2)))"

text \<open>
  What it is for \<open>p'\<close> to be the repair of the profile \<open>p\<close>, with \<open>t\<close> the clock
  reading: a current layout that names none of the profile's layouts becomes the name of
  the first; a current layer that the layout so named does not have becomes \<open>base\<close>; an
  empty id, name or background colour becomes \<open>profile_\<close> and the decimal clock reading,
  \<open>Unnamed Profile\<close>, \<open>#6366f1\<close>; every other field is as it was.
\<close>

definition repairOf :: "Time \<Rightarrow> Profile \<Rightarrow> Profile \<Rightarrow> bool" where
  "repairOf t p p' \<longleftrightarrow>
     CurrentLayout p' =
       (if CurrentLayout p \<in> Name ` set (Layouts p) then CurrentLayout p
        else Name (hd (Layouts p))) \<and>
     CurrentLayer p' =
       (case find (\<lambda>layout. Name layout = CurrentLayout p') (Layouts p) of
          Some layout \<Rightarrow>
            if mapIndex (Layers layout) (CurrentLayer p) = None then ''base'' else CurrentLayer p
        | None \<Rightarrow> CurrentLayer p) \<and>
     ProfileID p' = (if ProfileID p = [] then ''profile_'' @ formatInt t else ProfileID p) \<and>
     ProfileName p' = (if ProfileName p = [] then ''Unnamed Profile'' else ProfileName p) \<and>
     BackgroundColor p' = (if BackgroundColor p = [] then ''#6366f1'' else BackgroundColor p) \<and>
     p' = p\<lparr>CurrentLayout := CurrentLayout p', CurrentLayer := CurrentLayer p',
            ProfileID := ProfileID p', ProfileName := ProfileName p',
            BackgroundColor := BackgroundColor p'\<rparr>"

subsection \<open>Saving the store\<close>

text \<open>
  The operating system and the Go library are not part of the repository. A call is
  modelled by its documented effect on a file system of directories and files, and what
  each call answers is an input: \<open>Env\<close> holds the home directory (\<open>None\<close> when
  \<^verbatim>\<open>os.UserHomeDir\<close> fails), \<^verbatim>\<open>filepath.Join\<close> and \<^verbatim>\<open>filepath.Dir\<close>, whether
  \<^verbatim>\<open>os.Stat\<close> fails for a reason other than a missing path, whether
  \<^verbatim>\<open>os.MkdirAll\<close> succeeds, the clock, \<^verbatim>\<open>json.MarshalIndent\<close> (\<open>None\<close> when it fails), the
  outcome of \<^verbatim>\<open>os.WriteFile\<close> (written; failed before the file was opened; failed after
  it was truncated, leaving part of the data), and whether \<^verbatim>\<open>os.Rename\<close> and
  \<^verbatim>\<open>os.Remove\<close> succeed. A call that fails changes nothing, except the failed write.
\<close>

datatype writeOutcome = Written | NotOpened | Partial string

record Env =
  userHomeDir :: "string option"
  pathJoin :: "string \<Rightarrow> string \<Rightarrow> string"
  pathDir :: "string \<Rightarrow> string"
  statOtherError :: bool
  mkdirAllOk :: bool
  timeNow :: Time
  marshalIndent :: "ProfileManager \<Rightarrow> string option"
  writeFileOutcome :: writeOutcome
  renameOk :: bool
  removeOk :: bool

record FileSystem =
  dirs :: "string set"
  files :: "string \<Rightarrow> string option"

record App =
  profileManager :: ProfileManager

definition osWriteFile :: "Env \<Rightarrow> FileSystem \<Rightarrow> string \<Rightarrow> string \<Rightarrow> bool \<times> FileSystem" where
  "osWriteFile env fs path content =
     (case writeFileOutcome env of
        Written \<Rightarrow> (True, fs\<lparr>files := (files fs)(path \<mapsto> content)\<rparr>)
      | NotOpened \<Rightarrow> (False, fs)
      | Partial part \<Rightarrow> (False, fs\<lparr>files := (files fs)(path \<mapsto> part)\<rparr>))"

definition osRename :: "Env \<Rightarrow> FileSystem \<Rightarrow> string \<Rightarrow> string \<Rightarrow> bool \<times> FileSystem" where
  "osRename env fs oldPath newPath =
     (case files fs oldPath of
        None \<Rightarrow> (False, fs)
      | Some content \<Rightarrow>
          if renameOk env
          then (True, fs\<lparr>files := ((files fs)(newPath \<mapsto> content))(oldPath := None)\<rparr>)
          else (False, fs))"

definition osRemove :: "Env \<Rightarrow> FileSystem \<Rightarrow> string \<Rightarrow> FileSystem" where
  "osRemove env fs path = (if removeOk env then fs\<lparr>files := (files fs)(path := None)\<rparr> else fs)"

definition getConfigFilePath :: "Env \<Rightarrow> error + string" where
  "getConfigFilePath env =
     (case userHomeDir env of
        None \<Rightarrow> Inl HomeDirectoryFailed
      | Some homeDir \<Rightarrow>
          Inr (pathJoin env (pathJoin env homeDir ''.keyboard-cheatsheet'') ''config.json''))"

definition getProfileFilePath :: "Env \<Rightarrow> error + string" where
  "getProfileFilePath env =
     (case userHomeDir env of
        None \<Rightarrow> Inl HomeDirectoryFailed
      | Some homeDir \<Rightarrow>
          Inr (pathJoin env (pathJoin env homeDir ''.keyboard-cheatsheet'') ''profiles.json''))"

text \<open>
  \<^verbatim>\<open>_, err := os.Stat(path); os.IsNotExist(err)\<close>: true when the call reports that nothing
  is at the path, neither a directory nor a file; false when it finds something there and
  when it fails for another reason.
\<close>

definition osStatIsNotExist :: "Env \<Rightarrow> FileSystem \<Rightarrow> string \<Rightarrow> bool" where
  "osStatIsNotExist env fs path = (\<not> statOtherError env \<and> path \<notin> dirs fs \<and> files fs path = None)"

definition ensureConfigDir :: "Env \<Rightarrow> FileSystem \<Rightarrow> error option \<times> FileSystem" where
  "ensureConfigDir env fs =
     (case getConfigFilePath env of
        Inl e \<Rightarrow> (Some e, fs)
      | Inr configPath \<Rightarrow>
          (let configDir = pathDir env configPath in
           if osStatIsNotExist env fs configDir then
             (if mkdirAllOk env then (None, fs\<lparr>dirs := insert configDir (dirs fs)\<rparr>)
              else (Some (CreateConfigDirFailed configDir), fs))
           else (None, fs)))"

definition SaveProfiles :: "Env \<Rightarrow> App \<Rightarrow> FileSystem \<Rightarrow> error option \<times> App \<times> FileSystem" where
  "SaveProfiles env a fs =
     (case ensureConfigDir env fs of
        (Some e, fs1) \<Rightarrow> (Some e, a, fs1)
      | (None, fs1) \<Rightarrow>
          (case getProfileFilePath env of
             Inl e \<Rightarrow> (Some e, a, fs1)
           | Inr profilePath \<Rightarrow>
               (let a1 = a\<lparr>profileManager := (profileManager a)\<lparr>LastModified := timeNow env\<rparr>\<rparr> in
                case marshalIndent env (profileManager a1) of
                  None \<Rightarrow> (Some MarshalFailed, a1, fs1)
                | Some content \<Rightarrow>
                    (let tempPath = profilePath @ ''.tmp'' in
                     case osWriteFile env fs1 tempPath content of
                       (False, fs2) \<Rightarrow> (Some WriteTemporaryFileFailed, a1, fs2)
                     | (True, fs2) \<Rightarrow>
                         (case osRename env fs2 tempPath profilePath of
                            (False, fs3) \<Rightarrow>
                              (Some MoveToFinalLocationFailed, a1, osRemove env fs3 tempPath)
                          | (True, fs3) \<Rightarrow> (None, a1, fs3))))))"

text \<open>\<^verbatim>\<open>App.DeleteProfile\<close>: delete in the manager and, if that succeeded, save.\<close>

definition App_DeleteProfile ::
  "Time \<Rightarrow> Env \<Rightarrow> App \<Rightarrow> FileSystem \<Rightarrow> string \<Rightarrow> error option \<times> App \<times> FileSystem" where
  "App_DeleteProfile now env a fs profileID =
     (case DeleteProfile now (profileManager a) profileID of
        (Some e, pm) \<Rightarrow> (Some e, a\<lparr>profileManager := pm\<rparr>, fs)
      | (None, pm) \<Rightarrow> SaveProfiles env (a\<lparr>profileManager := pm\<rparr>) fs)"

section \<open>Example data\<close>

subsection \<open>Example layouts\<close>

text \<open>
  A key with content and a custom position (120.5, 40.0), and layouts built from it.
  \<open>importedLayout\<close> is what the JSON decoder yields for a layout document whose
  \<^verbatim>\<open>modifierMaps\<close> object is empty.
\<close>

definition exampleKey :: Key where
  "exampleKey =
     \<lparr> ID = ''L00'', Label = ''Q'', ImagePath = [], ImageData = ''data:image/png;base64,AAAA'',
       Description = ''quit'', Color = ''#ffcdd2'', Layer = ''base'', Modifiers = [],
       Row = 0, Col = 0, Side = ''left'', KeyType = ''normal'',
       CustomX = 0x405E200000000000, CustomY = 0x4044000000000000, IsCustomPosition = True \<rparr>"

definition secondKey :: Key where
  "secondKey = exampleKey\<lparr>ID := ''L01'', Label := ''W'', Col := 1\<rparr>"

definition ghostKey :: Key where
  "ghostKey = exampleKey\<lparr>ID := ''X99'', Label := ''Z''\<rparr>"

definition exampleLayout :: KeyboardLayout where
  "exampleLayout =
     \<lparr> Name = ''Corne'', LayoutDescription = [],
       Layers = Some [''base'' \<mapsto> [exampleKey]],
       ModifierMaps = Some [''base'' \<mapsto> Some Map.empty],
       CreatedAt = 1, ModifiedAt = 1 \<rparr>"

definition storedLayout :: KeyboardLayout where
  "storedLayout =
     \<lparr> Name = ''Corne'', LayoutDescription = [],
       Layers = Some [''base'' \<mapsto> [exampleKey]],
       ModifierMaps = Some [''base'' \<mapsto> Some [''ctrl+shift'' \<mapsto> [exampleKey\<lparr>Label := ''W''\<rparr>]]],
       CreatedAt = 1, ModifiedAt = 1 \<rparr>"

definition importedLayout :: KeyboardLayout where
  "importedLayout =
     \<lparr> Name = ''Imported'', LayoutDescription = [],
       Layers = Some [''base'' \<mapsto> [exampleKey]],
       ModifierMaps = Some Map.empty,
       CreatedAt = 1, ModifiedAt = 1 \<rparr>"

definition twoKeyLayout :: KeyboardLayout where
  "twoKeyLayout =
     \<lparr> Name = ''Corne'', LayoutDescription = [],
       Layers = Some [''base'' \<mapsto> [exampleKey, secondKey]],
       ModifierMaps = Some [''base'' \<mapsto> Some Map.empty],
       CreatedAt = 1, ModifiedAt = 1 \<rparr>"

definition threeLayerLayout :: KeyboardLayout where
  "threeLayerLayout =
     \<lparr> Name = ''Corne'', LayoutDescription = [],
       Layers = Some [''base'' \<mapsto> [exampleKey], ''nav'' \<mapsto> [secondKey]],
       ModifierMaps = Some [''base'' \<mapsto> Some Map.empty,
                            ''nav'' \<mapsto> Some [''ctrl'' \<mapsto> blankKeys [''ctrl''] [secondKey]]],
       CreatedAt = 1, ModifiedAt = 1 \<rparr>"

definition ctrlVariantOfExampleKey :: Key where
  "ctrlVariantOfExampleKey =
     \<lparr> ID = ''L00'', Label = [], ImagePath = [], ImageData = [],
       Description = [], Color = ''#e0e0e0'', Layer = ''base'', Modifiers = [''ctrl''],
       Row = 0, Col = 0, Side = ''left'', KeyType = ''normal'',
       CustomX = 0x405E200000000000, CustomY = 0x4044000000000000, IsCustomPosition = True \<rparr>"

subsection \<open>Example stores\<close>

text \<open>
  Two profiles and stores made of them. \<open>damagedStore\<close> has a dangling active profile, a
  first profile whose current layout and layer do not exist and a second profile without
  id, name and colour; \<open>repairedStore\<close> is what the repair makes of it when the clock
  reads \<open>exampleClock\<close>. \<open>exampleEnv\<close> is an operating system in which every call
  succeeds; its \<open>marshalIndent\<close> stands for the JSON encoder.
\<close>

definition workProfile :: Profile where
  "workProfile =
     \<lparr> ProfileID = ''p1'', ProfileName = ''Work'', Icon = [], BackgroundColor = ''#10b981'',
       ProfileDescription = [], ProfileCreatedAt = 1, ProfileModifiedAt = 1,
       Layouts = [exampleLayout], CurrentLayout = ''Corne'', CurrentLayer = ''base'',
       ActiveModifiers = [], ColorSchemes = None \<rparr>"

definition homeProfile :: Profile where
  "homeProfile = workProfile\<lparr>ProfileID := ''p2'', ProfileName := ''Home''\<rparr>"

definition oneProfile :: ProfileManager where
  "oneProfile = \<lparr> Profiles = [workProfile], ActiveProfile = ''p1'', LastModified = 1 \<rparr>"

definition twoProfiles :: ProfileManager where
  "twoProfiles = \<lparr> Profiles = [workProfile, homeProfile], ActiveProfile = ''p1'', LastModified = 1 \<rparr>"

definition emptyStore :: ProfileManager where
  "emptyStore = \<lparr> Profiles = [], ActiveProfile = ''p1'', LastModified = 1 \<rparr>"

definition noLayoutsStore :: ProfileManager where
  "noLayoutsStore =
     \<lparr> Profiles = [workProfile\<lparr>ProfileID := [], Layouts := []\<rparr>],
       ActiveProfile = [], LastModified = 1 \<rparr>"

definition damagedStore :: ProfileManager where
  "damagedStore =
     \<lparr> Profiles = [workProfile\<lparr>CurrentLayout := ''Gone'', CurrentLayer := ''nav''\<rparr>,
                   homeProfile\<lparr>ProfileID := [], ProfileName := [], BackgroundColor := []\<rparr>],
       ActiveProfile = ''ghost'', LastModified = 1 \<rparr>"

definition repairedStore :: ProfileManager where
  "repairedStore =
     \<lparr> Profiles = [workProfile,
                   homeProfile\<lparr>ProfileID := ''profile_1700000000000000001'',
                               ProfileName := ''Unnamed Profile'', BackgroundColor := ''#6366f1''\<rparr>],
       ActiveProfile = ''p1'', LastModified = 1 \<rparr>"

definition exampleClock :: "nat \<Rightarrow> Time" where
  "exampleClock i = 1700000000000000000 + int i"

definition exampleEnv :: Env where
  "exampleEnv =
     \<lparr> userHomeDir = Some ''/home/u'',
       pathJoin = (\<lambda>dir name. dir @ ''/'' @ name),
       pathDir = (\<lambda>path. rev (tl (dropWhile (\<lambda>c. c \<noteq> CHR ''/'') (rev path)))),
       statOtherError = False,
       mkdirAllOk = True,
       timeNow = 5,
       marshalIndent = (\<lambda>pm. Some (''{lastModified: '' @ formatInt (LastModified pm) @ ''}'')),
       writeFileOutcome = Written,
       renameOk = True,
       removeOk = True \<rparr>"

definition exampleFiles :: FileSystem where
  "exampleFiles =
     \<lparr> dirs = {''/home/u/.keyboard-cheatsheet''},
       files = [''/home/u/.keyboard-cheatsheet/profiles.json'' \<mapsto> ''{lastModified: 1}''] \<rparr>"

section \<open>Verification\<close>

subsection \<open>The canonicalizer sorts\<close>


lemma modOrder_Some:
  "modOrder m = Some k \<longleftrightarrow>
     m = ''ctrl'' \<and> k = 0 \<or> m = ''shift'' \<and> k = 1 \<or> m = ''alt'' \<and> k = 2 \<or> m = ''gui'' \<and> k = 3"
  by (auto simp: modOrder_def)

lemma modOrder_bound: "modOrder m = Some k \<Longrightarrow> k < 4"
  by (auto simp: modOrder_Some)

lemma modOrder_inj: "modOrder a = Some k \<Longrightarrow> modOrder b = Some k \<Longrightarrow> a = b"
  by (auto simp: modOrder_Some)

lemma inj_modKey: "inj modKey"
proof (rule injI)
  fix a b assume "modKey a = modKey b"
  then show "a = b"
    by (auto simp: modKey_def split: option.splits dest: modOrder_bound modOrder_inj)
qed

lemma modKey_less:
  "modKey b < modKey a \<longleftrightarrow>
     (case (modOrder a, modOrder b) of
        (Some orderI, Some orderJ) \<Rightarrow> orderI > orderJ
      | (Some orderI, None) \<Rightarrow> False
      | (None, Some orderJ) \<Rightarrow> True
      | (None, None) \<Rightarrow> a > b)"
  by (auto simp: modKey_def split: option.splits dest: modOrder_bound)

lemma sortStep_modKey:
  "sortStep i j s = (if modKey (s ! i) > modKey (s ! j) then swap i j s else s)"
  unfolding modKey_less sortStep_def by (simp split: option.splits)

lemma sortStep_inv:
  assumes "i < j" "j < length s"
    and "\<forall>k. i < k \<and> k < j \<longrightarrow> modKey (s ! i) \<le> modKey (s ! k)"
  shows "mset (sortStep i j s) = mset s"
    and "take i (sortStep i j s) = take i s"
    and "\<forall>k. i < k \<and> k < Suc j \<longrightarrow> modKey (sortStep i j s ! i) \<le> modKey (sortStep i j s ! k)"
proof -
  show "mset (sortStep i j s) = mset s"
    using assms(1,2) mset_swap[of j s i] by (simp add: sortStep_modKey swap_def)
  show "take i (sortStep i j s) = take i s"
    using assms(1,2) by (simp add: sortStep_modKey swap_def)
  show "\<forall>k. i < k \<and> k < Suc j \<longrightarrow> modKey (sortStep i j s ! i) \<le> modKey (sortStep i j s ! k)"
  proof (intro allI impI)
    fix k assume k: "i < k \<and> k < Suc j"
    show "modKey (sortStep i j s ! i) \<le> modKey (sortStep i j s ! k)"
    proof (cases "modKey (s ! i) > modKey (s ! j)")
      case True
      have sw: "sortStep i j s = s[i := s ! j, j := s ! i]"
        using True by (simp add: sortStep_modKey swap_def)
      show ?thesis
      proof (cases "k = j")
        case True
        then show ?thesis
          using \<open>modKey (s ! j) < modKey (s ! i)\<close> assms(1,2) by (simp add: sw)
      next
        case False
        with k have kj: "k < j" by simp
        with k assms(3) have "modKey (s ! i) \<le> modKey (s ! k)" by blast
        with True have "modKey (s ! j) \<le> modKey (s ! k)" by simp
        then show ?thesis
          using kj k assms(1,2) by (simp add: sw)
      qed
    next
      case False
      then have same: "sortStep i j s = s" by (simp add: sortStep_modKey)
      show ?thesis
      proof (cases "k = j")
        case True
        then show ?thesis using False by (simp add: same)
      next
        case False
        with k have "k < j" by simp
        with k assms(3) show ?thesis by (simp add: same)
      qed
    qed
  qed
qed

lemma sortInner_inv:
  assumes "i < j" "j \<le> length s"
    and "\<forall>k. i < k \<and> k < j \<longrightarrow> modKey (s ! i) \<le> modKey (s ! k)"
  shows "mset (sortInner i j s) = mset s \<and> take i (sortInner i j s) = take i s \<and>
         (\<forall>k. i < k \<and> k < length s \<longrightarrow> modKey (sortInner i j s ! i) \<le> modKey (sortInner i j s ! k))"
  using assms
proof (induction i j s rule: sortInner.induct)
  case (1 i j s)
  show ?case
  proof (cases "j < length s")
    case True
    note step = sortStep_inv[OF "1.prems"(1) True "1.prems"(3)]
    have unfold: "sortInner i j s = sortInner i (j + 1) (sortStep i j s)"
      using True by (subst sortInner.simps) simp
    have "mset (sortInner i (j + 1) (sortStep i j s)) = mset (sortStep i j s) \<and>
          take i (sortInner i (j + 1) (sortStep i j s)) = take i (sortStep i j s) \<and>
          (\<forall>k. i < k \<and> k < length (sortStep i j s) \<longrightarrow>
             modKey (sortInner i (j + 1) (sortStep i j s) ! i)
               \<le> modKey (sortInner i (j + 1) (sortStep i j s) ! k))"
    proof (rule "1.IH"[OF True])
      show "i < j + 1" using "1.prems"(1) by simp
      show "j + 1 \<le> length (sortStep i j s)" using True by (simp add: length_sortStep)
      show "\<forall>k. i < k \<and> k < j + 1 \<longrightarrow>
              modKey (sortStep i j s ! i) \<le> modKey (sortStep i j s ! k)"
        using step(3) by simp
    qed
    then show ?thesis
      unfolding unfold using step(1,2) by (simp add: length_sortStep)
  next
    case False
    then have "sortInner i j s = s" by (subst sortInner.simps) simp
    moreover have "j = length s" using False "1.prems"(2) by simp
    ultimately show ?thesis using "1.prems"(3) by simp
  qed
qed

lemma in_set_dropD:
  assumes "y \<in> set (drop n xs)"
  shows "\<exists>k. n \<le> k \<and> k < length xs \<and> y = xs ! k"
proof -
  from assms obtain j where j: "j < length (drop n xs)" "drop n xs ! j = y"
    by (auto simp: in_set_conv_nth)
  then have "n + j < length xs" "y = xs ! (n + j)" by auto
  then show ?thesis by (intro exI[of _ "n + j"]) simp
qed

lemma sortOuter_inv:
  assumes "i \<le> length s" "sorted (map modKey (take i s))"
    and "\<forall>x\<in>set (take i s). \<forall>y\<in>set (drop i s). modKey x \<le> modKey y"
  shows "mset (sortOuter i s) = mset s \<and> sorted (map modKey (sortOuter i s))"
  using assms
proof (induction i s rule: sortOuter.induct)
  case (1 i s)
  show ?case
  proof (cases "i < length s")
    case True
    define r where "r = sortInner i (i + 1) s"
    have unfold: "sortOuter i s = sortOuter (i + 1) r"
      using True unfolding r_def by (subst sortOuter.simps) simp
    have vac: "\<forall>k. i < k \<and> k < i + 1 \<longrightarrow> modKey (s ! i) \<le> modKey (s ! k)"
      by auto
    have "i < i + 1" "i + 1 \<le> length s" using True by simp_all
    from sortInner_inv[OF this vac]
    have inner: "mset r = mset s" "take i r = take i s"
      "\<forall>k. i < k \<and> k < length s \<longrightarrow> modKey (r ! i) \<le> modKey (r ! k)"
      unfolding r_def by blast+
    have len: "length r = length s" unfolding r_def by (rule length_sortInner)
    have "mset (take i r) + mset (drop i r) = mset (take i s) + mset (drop i s)"
      using inner(1) by (simp flip: mset_append)
    then have "mset (drop i r) = mset (drop i s)" using inner(2) by simp
    then have setdrop: "set (drop i r) = set (drop i s)" by (rule mset_eq_setD)
    have ri: "r ! i \<in> set (drop i r)"
      using True len by (simp flip: Cons_nth_drop_Suc)
    have tk: "take (Suc i) r = take i s @ [r ! i]"
      using True len inner(2) by (simp add: take_Suc_conv_app_nth)
    have s1: "sorted (map modKey (take (Suc i) r))"
      using "1.prems"(2,3) ri setdrop by (simp add: tk sorted_append)
    have s2: "\<forall>x\<in>set (take (Suc i) r). \<forall>y\<in>set (drop (Suc i) r). modKey x \<le> modKey y"
    proof (intro ballI)
      fix x y assume x: "x \<in> set (take (Suc i) r)" and y: "y \<in> set (drop (Suc i) r)"
      from y have y': "y \<in> set (drop i s)"
        using setdrop set_drop_subset_set_drop[of i "Suc i" r] by auto
      from in_set_dropD[OF y] obtain k where k: "Suc i \<le> k" "k < length r" "y = r ! k"
        by blast
      from x consider "x \<in> set (take i s)" | "x = r ! i" by (auto simp: tk)
      then show "modKey x \<le> modKey y"
      proof cases
        case 1 then show ?thesis using "1.prems"(3) y' by blast
      next
        case 2
        have "i < k \<and> k < length s" using k len by simp
        with inner(3) have "modKey (r ! i) \<le> modKey (r ! k)" by blast
        then show ?thesis using 2 k(3) by simp
      qed
    qed
    have "mset (sortOuter (i + 1) r) = mset r \<and> sorted (map modKey (sortOuter (i + 1) r))"
      using "1.IH"[OF True, folded r_def] True len s1 s2 by simp
    then show ?thesis unfolding unfold using inner(1) by simp
  next
    case False
    then have "sortOuter i s = s" by (subst sortOuter.simps) simp
    then show ?thesis using False "1.prems" by simp
  qed
qed

lemma sortedMods_sort_key: "sortedMods ms = sort_key modKey ms"
proof -
  have "mset (sortOuter 0 ms) = mset ms \<and> sorted (map modKey (sortOuter 0 ms))"
    by (rule sortOuter_inv) simp_all
  then show ?thesis
    unfolding sortedMods_def
    by (intro sort_key_inj_key_eq[symmetric]) (auto intro: inj_on_subset[OF inj_modKey])
qed

lemma modOrder_builtin: "modOrder m = None \<longleftrightarrow> m \<notin> set builtinModifiers"
  by (simp add: modOrder_def builtinModifiers_def)

lemma modKey_custom: "m \<notin> set builtinModifiers \<Longrightarrow> modKey m = (4, m)"
  by (simp add: modKey_def modOrder_builtin[symmetric])

lemma modKey_builtin:
  assumes "m \<in> set builtinModifiers"
  shows "fst (modKey m) < 4"
proof -
  from assms have "modOrder m \<noteq> None" by (simp add: modOrder_builtin)
  then obtain k where k: "modOrder m = Some k" by auto
  from modOrder_bound[OF k] show ?thesis by (simp add: modKey_def k)
qed

lemma sorted_builtin: "sorted (map modKey builtinModifiers)"
  by (simp add: builtinModifiers_def modKey_def modOrder_def)

lemma sorted_canonical_spec:
  assumes "finite M"
  shows "sorted (map modKey (canonical_spec M))"
proof -
  let ?C = "sorted_list_of_set (M - set builtinModifiers)"
  have 1: "sorted (map modKey (filter (\<lambda>b. b \<in> M) builtinModifiers))"
    using sorted_builtin by (rule sorted_filter)
  have eq: "map modKey ?C = map (\<lambda>m. (4, m)) ?C"
    using assms by (intro map_cong) (auto simp: modKey_custom)
  have "sorted (map (\<lambda>m. (4::int, m)) ?C)"
    using sorted_sorted_list_of_set[of "M - set builtinModifiers"]
    by (simp add: sorted_map sorted_wrt_mono_rel[of ?C "(\<le>)"])
  then have 2: "sorted (map modKey ?C)" by (simp only: eq)
  have 3: "modKey x \<le> modKey y"
    if "x \<in> set builtinModifiers" "y \<in> M - set builtinModifiers" for x y
  proof -
    have "fst (modKey x) < 4" using that(1) by (rule modKey_builtin)
    moreover have "modKey y = (4, y)" using that(2) by (simp add: modKey_custom)
    ultimately show ?thesis by (cases "modKey x") auto
  qed
  show ?thesis
    unfolding canonical_spec_def using 1 2 3 assms by (auto simp: sorted_append)
qed

lemma sortedMods_canonical_spec:
  assumes "distinct ms"
  shows "sortedMods ms = canonical_spec (set ms)"
proof -
  have d: "distinct (canonical_spec (set ms))"
    by (auto simp: canonical_spec_def builtinModifiers_def)
  have s: "set (canonical_spec (set ms)) = set ms"
    by (auto simp: canonical_spec_def)
  have "mset ms = mset (canonical_spec (set ms))"
    using assms d s by (simp add: set_eq_iff_mset_eq_distinct)
  moreover have "inj_on modKey (set ms)"
    by (rule inj_on_subset[OF inj_modKey]) simp
  moreover have "sorted (map modKey (canonical_spec (set ms)))"
    by (rule sorted_canonical_spec) simp
  ultimately show ?thesis
    unfolding sortedMods_sort_key by (rule sort_key_inj_key_eq)
qed

text \<open>
  Claim C1. For every set of modifier names (built-in or custom) and any two enumerations
  \<open>ms\<close>, \<open>ms'\<close> of it, the canonicalizer yields the same combo string, and that string
  is the built-in names in the order ctrl, shift, alt, gui followed by the custom names in
  lexicographic order, joined with \<open>+\<close>.
\<close>

theorem canonicalizer_order_invariant:
  assumes "distinct ms" and "distinct ms'" and "set ms' = set ms"
  shows "comboKey ms' = comboKey ms \<and> comboKey ms = Join (canonical_spec (set ms)) ''+''"
  using assms by (simp add: comboKey_def sortedMods_canonical_spec)

theorem canonicalizer_order_invariant_witness:
  "distinct [''shift'', ''macro'', ''gui'', ''fn'', ''ctrl''] \<and>
   distinct [''fn'', ''ctrl'', ''macro'', ''shift'', ''gui''] \<and>
   set [''fn'', ''ctrl'', ''macro'', ''shift'', ''gui''] = set [''shift'', ''macro'', ''gui'', ''fn'', ''ctrl''] \<and>
   comboKey [''fn'', ''ctrl'', ''macro'', ''shift'', ''gui''] = ''ctrl+shift+gui+fn+macro'' \<and>
   comboKey [''shift'', ''macro'', ''gui'', ''fn'', ''ctrl''] = ''ctrl+shift+gui+fn+macro''"
proof -
  have d: "distinct [''shift'', ''macro'', ''gui'', ''fn'', ''ctrl'']" by simp
  have d': "distinct [''fn'', ''ctrl'', ''macro'', ''shift'', ''gui'']" by simp
  have s: "set [''fn'', ''ctrl'', ''macro'', ''shift'', ''gui''] = set [''shift'', ''macro'', ''gui'', ''fn'', ''ctrl'']"
    by auto
  have v: "comboKey [''shift'', ''macro'', ''gui'', ''fn'', ''ctrl''] = ''ctrl+shift+gui+fn+macro''"
    by code_simp
  from canonicalizer_order_invariant[OF d d' s] d d' s v show ?thesis by simp
qed



subsection \<open>Helper facts about the layout operations\<close>

lemma set_sortedMods: "set (sortedMods ms) = set ms"
  by (simp add: sortedMods_sort_key)

lemma replaceByID_None: "replaceByID u ks = None \<longleftrightarrow> ID u \<notin> ID ` set ks"
  by (induction ks) auto

lemma replaceByID_Some:
  assumes "i < length ks" "ID (ks ! i) = ID u" "\<forall>j<i. ID (ks ! j) \<noteq> ID u"
  shows "replaceByID u ks = Some (ks[i := u])"
  using assms
proof (induction ks arbitrary: i)
  case Nil
  then show ?case by simp
next
  case (Cons k ks)
  show ?case
  proof (cases i)
    case 0
    then show ?thesis using Cons.prems by simp
  next
    case (Suc n)
    have "ID k \<noteq> ID u" using Cons.prems(3) Suc by auto
    moreover have "replaceByID u ks = Some (ks[n := u])"
      using Cons.prems Suc by (intro Cons.IH) auto
    ultimately show ?thesis using Suc by simp
  qed
qed

lemma ID_blankKeys: "map ID (blankKeys mods ks) = map ID ks"
  by (simp add: blankKeys_def blankKey_def)

lemma replaceByID_blankKeys_None:
  "ID u \<notin> ID ` set ks \<Longrightarrow> replaceByID u (blankKeys mods ks) = None"
  using ID_blankKeys[of mods ks] by (metis replaceByID_None set_map)

lemma blankCloneOf_blankKeys: "blankCloneOf mods baseKeys (blankKeys mods baseKeys)"
  by (simp add: blankCloneOf_def blankKeys_def blankKey_def)

lemma GetKeys_materialize:
  assumes "Layers kl = Some layers" and "layers layer = Some baseKeys"
    and "ModifierMaps kl = Some maps" and "maps layer = Some (Some combos)"
    and "activeModifiers \<noteq> []" and "combos (comboKey activeModifiers) = None"
  shows "GetKeysForActiveModifiers now kl layer activeModifiers =
           Inr (blankKeys (sortedMods activeModifiers) baseKeys,
                kl\<lparr>ModifierMaps :=
                     Some (maps(layer \<mapsto> Some (combos(comboKey activeModifiers \<mapsto>
                       blankKeys (sortedMods activeModifiers) baseKeys)))),
                   ModifiedAt := now\<rparr>)"
  using assms
  by (simp add: GetKeysForActiveModifiers_def mapIndex_def mapAssign_def mapWritten_def)

lemma GetKeys_stored:
  assumes "ModifierMaps kl = Some maps" and "maps layer = Some (Some combos)"
    and "activeModifiers \<noteq> []" and "combos (comboKey activeModifiers) = Some keys"
  shows "GetKeysForActiveModifiers now kl layer activeModifiers = Inr (keys, kl)"
  using assms by (simp add: GetKeysForActiveModifiers_def mapIndex_def)

lemma GetKeys_no_modifiers:
  assumes "Layers kl = Some layers" and "layers layer = Some baseKeys"
  shows "GetKeysForActiveModifiers now kl layer [] = Inr (baseKeys, kl)"
  using assms by (simp add: GetKeysForActiveModifiers_def mapIndex_def)

lemma generateStep_stores:
  assumes "ModifierMaps kl = Some maps" and "maps layerName = Some (Some combos)"
    and "activeModsOf i modifiers \<noteq> []"
  shows "generateStep kl layerName baseKeys modifiers i =
           Inr (kl\<lparr>ModifierMaps :=
                  Some (maps(layerName \<mapsto> Some (combos(Join (activeModsOf i modifiers) ''+'' \<mapsto>
                    blankKeys (activeModsOf i modifiers) baseKeys))))\<rparr>)"
  using assms
  by (simp add: generateStep_def mapIndex_def mapAssign_def mapWritten_def Let_def)

lemma numCombos_builtin: "numCombos [''ctrl'', ''shift'', ''alt'', ''gui''] = 16"
  by (simp add: numCombos_def)

lemma AddCustomLayer_eager:
  assumes "Layers kl = Some layers" and "ModifierMaps kl = Some maps"
  shows "AddCustomLayer now kl layerName baseKeys =
    Inr (kl\<lparr>Layers := Some (layers(layerName \<mapsto> baseKeys)),
            ModifierMaps := Some (maps(layerName \<mapsto> Some
              [''ctrl'' \<mapsto> blankKeys [''ctrl''] baseKeys,
               ''shift'' \<mapsto> blankKeys [''shift''] baseKeys,
               ''ctrl+shift'' \<mapsto> blankKeys [''ctrl'', ''shift''] baseKeys,
               ''alt'' \<mapsto> blankKeys [''alt''] baseKeys,
               ''ctrl+alt'' \<mapsto> blankKeys [''ctrl'', ''alt''] baseKeys,
               ''shift+alt'' \<mapsto> blankKeys [''shift'', ''alt''] baseKeys,
               ''ctrl+shift+alt'' \<mapsto> blankKeys [''ctrl'', ''shift'', ''alt''] baseKeys,
               ''gui'' \<mapsto> blankKeys [''gui''] baseKeys,
               ''ctrl+gui'' \<mapsto> blankKeys [''ctrl'', ''gui''] baseKeys,
               ''shift+gui'' \<mapsto> blankKeys [''shift'', ''gui''] baseKeys,
               ''ctrl+shift+gui'' \<mapsto> blankKeys [''ctrl'', ''shift'', ''gui''] baseKeys,
               ''alt+gui'' \<mapsto> blankKeys [''alt'', ''gui''] baseKeys,
               ''ctrl+alt+gui'' \<mapsto> blankKeys [''ctrl'', ''alt'', ''gui''] baseKeys,
               ''shift+alt+gui'' \<mapsto> blankKeys [''shift'', ''alt'', ''gui''] baseKeys,
               ''ctrl+shift+alt+gui'' \<mapsto> blankKeys [''ctrl'', ''shift'', ''alt'', ''gui''] baseKeys])),
            ModifiedAt := now\<rparr>)"
  using assms
  by (simp add: AddCustomLayer_def generateAllModifierCombinations_def generateLoop.simps
      generateStep_def numCombos_builtin activeModsOf_def mapAssign_def mapIndex_def mapWritten_def)

lemma sortedMods_shift_ctrl: "sortedMods [''shift'', ''ctrl''] = [''ctrl'', ''shift'']"
  by code_simp

lemma comboKey_shift_ctrl: "comboKey [''shift'', ''ctrl''] = ''ctrl+shift''"
  by code_simp

lemma sortedMods_ctrl: "sortedMods [''ctrl''] = [''ctrl'']"
  by code_simp

lemma comboKey_ctrl: "comboKey [''ctrl''] = ''ctrl''"
  by code_simp

lemma example_IDs: "ID exampleKey = ''L00''" "ID secondKey = ''L01''" "ID ghostKey = ''X99''"
  by (simp_all add: exampleKey_def secondKey_def ghostKey_def)

subsection \<open>Reading keys under modifiers\<close>

lemma mapIndex_SomeD: "mapIndex m k = Some v \<Longrightarrow> \<exists>t. m = Some t \<and> t k = Some v"
  by (cases m) (simp_all add: mapIndex_def)

lemma GetKeys_no_entry:
  assumes "activeModifiers \<noteq> []" and "mapIndex (ModifierMaps kl) layer = None"
  shows "GetKeysForActiveModifiers now kl layer activeModifiers = Inr ([], kl)"
  using assms by (simp add: GetKeysForActiveModifiers_def)

text \<open>
  Claim C2, as amended. For every layer that has a canonical key list, \<open>keysFor\<close> returns
  the canonical list when no modifier is active, whatever the Combination Maps hold. With
  modifiers active and a Combination Map for the layer (a table, not nil), it returns the
  stored variant when the canonical combo is stored, and otherwise builds a blank variant,
  stores it under the combo, stamps \<open>modifiedAt\<close> and returns it, so that asking again
  returns the same stored variant and leaves the layout as it is. With modifiers active and
  no Combination Map entry for the layer (with or without a canonical list), it returns the
  empty list and stores nothing.
\<close>

theorem keysFor_lazy_materialization:
  "(mapIndex (Layers kl) layer = Some baseKeys \<longrightarrow>
      GetKeysForActiveModifiers now kl layer [] = Inr (baseKeys, kl)) \<and>
   (activeModifiers \<noteq> [] \<and> ModifierMaps kl = Some maps \<and> maps layer = Some (Some combos) \<and>
    combos (comboKey activeModifiers) = Some keys \<longrightarrow>
      GetKeysForActiveModifiers now kl layer activeModifiers = Inr (keys, kl)) \<and>
   (activeModifiers \<noteq> [] \<and> mapIndex (Layers kl) layer = Some baseKeys \<and>
    ModifierMaps kl = Some maps \<and> maps layer = Some (Some combos) \<and>
    combos (comboKey activeModifiers) = None \<longrightarrow>
      (let variant = blankKeys (sortedMods activeModifiers) baseKeys;
           kl' = kl\<lparr>ModifierMaps :=
                      Some (maps(layer \<mapsto> Some (combos(comboKey activeModifiers \<mapsto> variant)))),
                    ModifiedAt := now\<rparr>
       in GetKeysForActiveModifiers now kl layer activeModifiers = Inr (variant, kl') \<and>
          GetKeysForActiveModifiers later kl' layer activeModifiers = Inr (variant, kl'))) \<and>
   (activeModifiers \<noteq> [] \<and> mapIndex (ModifierMaps kl) layer = None \<longrightarrow>
      GetKeysForActiveModifiers now kl layer activeModifiers = Inr ([], kl))"
proof (intro conjI impI)
  assume "mapIndex (Layers kl) layer = Some baseKeys"
  then obtain layers where "Layers kl = Some layers" and "layers layer = Some baseKeys"
    using mapIndex_SomeD by fastforce
  then show "GetKeysForActiveModifiers now kl layer [] = Inr (baseKeys, kl)"
    by (rule GetKeys_no_modifiers)
next
  assume "activeModifiers \<noteq> [] \<and> ModifierMaps kl = Some maps \<and> maps layer = Some (Some combos) \<and>
    combos (comboKey activeModifiers) = Some keys"
  then show "GetKeysForActiveModifiers now kl layer activeModifiers = Inr (keys, kl)"
    by (simp add: GetKeys_stored)
next
  assume a: "activeModifiers \<noteq> [] \<and> mapIndex (Layers kl) layer = Some baseKeys \<and>
    ModifierMaps kl = Some maps \<and> maps layer = Some (Some combos) \<and>
    combos (comboKey activeModifiers) = None"
  then obtain layers where l: "Layers kl = Some layers" "layers layer = Some baseKeys"
    using mapIndex_SomeD by fastforce
  from a have m: "ModifierMaps kl = Some maps" "maps layer = Some (Some combos)" by simp_all
  define variant where "variant = blankKeys (sortedMods activeModifiers) baseKeys"
  define kl' where "kl' = kl\<lparr>ModifierMaps :=
      Some (maps(layer \<mapsto> Some (combos(comboKey activeModifiers \<mapsto> variant)))), ModifiedAt := now\<rparr>"
  have 1: "GetKeysForActiveModifiers now kl layer activeModifiers = Inr (variant, kl')"
    using a GetKeys_materialize[OF l m, of activeModifiers now] by (simp add: variant_def kl'_def)
  have 2: "GetKeysForActiveModifiers later kl' layer activeModifiers = Inr (variant, kl')"
    using a by (intro GetKeys_stored[where maps = "maps(layer \<mapsto> Some (combos(comboKey activeModifiers \<mapsto> variant)))"
        and combos = "combos(comboKey activeModifiers \<mapsto> variant)"]) (simp_all add: kl'_def)
  show "let variant = blankKeys (sortedMods activeModifiers) baseKeys;
            kl' = kl\<lparr>ModifierMaps :=
                       Some (maps(layer \<mapsto> Some (combos(comboKey activeModifiers \<mapsto> variant)))),
                     ModifiedAt := now\<rparr>
        in GetKeysForActiveModifiers now kl layer activeModifiers = Inr (variant, kl') \<and>
           GetKeysForActiveModifiers later kl' layer activeModifiers = Inr (variant, kl')"
    using 1 2 unfolding variant_def kl'_def by (simp add: Let_def)
next
  assume "activeModifiers \<noteq> [] \<and> mapIndex (ModifierMaps kl) layer = None"
  then show "GetKeysForActiveModifiers now kl layer activeModifiers = Inr ([], kl)"
    by (simp add: GetKeys_no_entry)
qed

theorem keysFor_lazy_materialization_witness:
  "GetKeysForActiveModifiers 5 exampleLayout ''base'' [] = Inr ([exampleKey], exampleLayout) \<and>
   GetKeysForActiveModifiers 5 importedLayout ''base'' [] = Inr ([exampleKey], importedLayout) \<and>
   GetKeysForActiveModifiers 5 storedLayout ''base'' [''shift'', ''ctrl''] =
     Inr ([exampleKey\<lparr>Label := ''W''\<rparr>], storedLayout) \<and>
   GetKeysForActiveModifiers 5 exampleLayout ''base'' [''shift'', ''ctrl''] =
     Inr (blankKeys [''ctrl'', ''shift''] [exampleKey],
          exampleLayout\<lparr>ModifierMaps :=
              Some [''base'' \<mapsto> Some [''ctrl+shift'' \<mapsto> blankKeys [''ctrl'', ''shift''] [exampleKey]]],
            ModifiedAt := 5\<rparr>) \<and>
   GetKeysForActiveModifiers 9
       (exampleLayout\<lparr>ModifierMaps :=
              Some [''base'' \<mapsto> Some [''ctrl+shift'' \<mapsto> blankKeys [''ctrl'', ''shift''] [exampleKey]]],
            ModifiedAt := 5\<rparr>) ''base'' [''shift'', ''ctrl''] =
     Inr (blankKeys [''ctrl'', ''shift''] [exampleKey],
          exampleLayout\<lparr>ModifierMaps :=
              Some [''base'' \<mapsto> Some [''ctrl+shift'' \<mapsto> blankKeys [''ctrl'', ''shift''] [exampleKey]]],
            ModifiedAt := 5\<rparr>) \<and>
   GetKeysForActiveModifiers 5 importedLayout ''base'' [''shift'', ''ctrl''] = Inr ([], importedLayout)"
  using keysFor_lazy_materialization[where kl = exampleLayout and layer = "''base''"
      and baseKeys = "[exampleKey]"
      and maps = "[''base'' \<mapsto> Some Map.empty]" and combos = Map.empty
      and activeModifiers = "[''shift'', ''ctrl'']" and now = 5 and later = 9 and keys = "[]"]
    keysFor_lazy_materialization[where kl = storedLayout and layer = "''base''"
      and baseKeys = "[exampleKey]"
      and maps = "[''base'' \<mapsto> Some [''ctrl+shift'' \<mapsto> [exampleKey\<lparr>Label := ''W''\<rparr>]]]"
      and combos = "[''ctrl+shift'' \<mapsto> [exampleKey\<lparr>Label := ''W''\<rparr>]]"
      and activeModifiers = "[''shift'', ''ctrl'']" and now = 5 and later = 9
      and keys = "[exampleKey\<lparr>Label := ''W''\<rparr>]"]
    keysFor_lazy_materialization[where kl = importedLayout and layer = "''base''"
      and baseKeys = "[exampleKey]" and maps = Map.empty and combos = Map.empty
      and activeModifiers = "[''shift'', ''ctrl'']" and now = 5 and later = 9 and keys = "[]"]
  by (simp add: exampleLayout_def storedLayout_def importedLayout_def mapIndex_def
      comboKey_shift_ctrl sortedMods_shift_ctrl Let_def)

text \<open>
  Claim C2 as stated, for every layer present in the layout, fails: a layer with a
  canonical list and no Combination Map gets the empty list, and nothing is stored.
\<close>

theorem keysFor_layer_without_combination_map:
  "mapIndex (Layers importedLayout) ''base'' = Some [exampleKey] \<and>
   GetKeysForActiveModifiers 5 importedLayout ''base'' [''ctrl''] = Inr ([], importedLayout)"
  by (simp add: GetKeysForActiveModifiers_def importedLayout_def mapIndex_def)

text \<open>
  An entry of the Combination Maps that is present and nil (the decoder yields one for a
  layer whose table is \<^verbatim>\<open>null\<close> in the document) is found by the lookup and holds no
  combination, so with modifiers active the variant is built and the assignment into the nil
  table panics.
\<close>

lemma keysFor_nil_combination_map:
  assumes "activeModifiers \<noteq> []" and "mapIndex (Layers kl) layer = Some baseKeys"
    and "mapIndex (ModifierMaps kl) layer = Some None"
  shows "GetKeysForActiveModifiers now kl layer activeModifiers = Inl AssignmentToEntryInNilMap"
proof -
  have "mapIndex (None :: (string, Key list) gomap) (comboKey activeModifiers) = None"
    by (simp add: mapIndex_def)
  with assms show ?thesis
    by (simp add: GetKeysForActiveModifiers_def mapAssign_def)
qed

subsection \<open>Fresh variants\<close>

text \<open>
  Claim C3, as amended. Every freshly materialized variant, whether built on demand by
  \<open>keysFor\<close> or by a round of the eager generation, is a clone of the canonical list in
  which every key has a blank label, image path, image and description and the neutral
  colour \<open>#e0e0e0\<close>, carries the active modifiers (in canonical order) as its modifiers,
  and keeps the custom position and its flag of the canonical key.
\<close>

theorem fresh_variant_is_blank_clone:
  assumes "ModifierMaps kl = Some maps" and "maps layer = Some (Some combos)"
  shows
    "(Layers kl = Some layers \<and> layers layer = Some baseKeys \<and>
      activeModifiers \<noteq> [] \<and> combos (comboKey activeModifiers) = None \<longrightarrow>
        (\<exists>variant kl'.
           GetKeysForActiveModifiers now kl layer activeModifiers = Inr (variant, kl') \<and>
           ModifierMaps kl' = Some (maps(layer \<mapsto> Some (combos(comboKey activeModifiers \<mapsto> variant)))) \<and>
           blankCloneOf (sortedMods activeModifiers) baseKeys variant \<and>
           set (sortedMods activeModifiers) = set activeModifiers)) \<and>
     (activeModsOf i modifiers \<noteq> [] \<longrightarrow>
        (\<exists>variant kl'.
           generateStep kl layer keys modifiers i = Inr kl' \<and>
           ModifierMaps kl' =
             Some (maps(layer \<mapsto> Some (combos(Join (activeModsOf i modifiers) ''+'' \<mapsto> variant)))) \<and>
           blankCloneOf (activeModsOf i modifiers) keys variant))"
proof (intro conjI impI)
  assume a: "Layers kl = Some layers \<and> layers layer = Some baseKeys \<and>
      activeModifiers \<noteq> [] \<and> combos (comboKey activeModifiers) = None"
  then have "GetKeysForActiveModifiers now kl layer activeModifiers =
           Inr (blankKeys (sortedMods activeModifiers) baseKeys,
                kl\<lparr>ModifierMaps :=
                     Some (maps(layer \<mapsto> Some (combos(comboKey activeModifiers \<mapsto>
                       blankKeys (sortedMods activeModifiers) baseKeys)))),
                   ModifiedAt := now\<rparr>)"
    using assms by (intro GetKeys_materialize[where layers = layers]) simp_all
  then show "\<exists>variant kl'.
           GetKeysForActiveModifiers now kl layer activeModifiers = Inr (variant, kl') \<and>
           ModifierMaps kl' = Some (maps(layer \<mapsto> Some (combos(comboKey activeModifiers \<mapsto> variant)))) \<and>
           blankCloneOf (sortedMods activeModifiers) baseKeys variant \<and>
           set (sortedMods activeModifiers) = set activeModifiers"
    by (intro exI[of _ "blankKeys (sortedMods activeModifiers) baseKeys"])
       (simp add: blankCloneOf_blankKeys set_sortedMods)
next
  assume "activeModsOf i modifiers \<noteq> []"
  with assms show "\<exists>variant kl'.
           generateStep kl layer keys modifiers i = Inr kl' \<and>
           ModifierMaps kl' =
             Some (maps(layer \<mapsto> Some (combos(Join (activeModsOf i modifiers) ''+'' \<mapsto> variant)))) \<and>
           blankCloneOf (activeModsOf i modifiers) keys variant"
    by (intro exI[of _ "blankKeys (activeModsOf i modifiers) keys"])
       (simp add: generateStep_stores blankCloneOf_blankKeys)
qed

theorem fresh_variant_is_blank_clone_witness:
  "GetKeysForActiveModifiers 5 exampleLayout ''base'' [''shift'', ''ctrl''] =
     Inr ([exampleKey\<lparr>Label := [], ImageData := [], Description := [], Color := ''#e0e0e0'',
                       Modifiers := [''ctrl'', ''shift'']\<rparr>],
          exampleLayout\<lparr>ModifierMaps :=
              Some [''base'' \<mapsto> Some [''ctrl+shift'' \<mapsto>
                [exampleKey\<lparr>Label := [], ImageData := [], Description := [], Color := ''#e0e0e0'',
                            Modifiers := [''ctrl'', ''shift'']\<rparr>]]],
            ModifiedAt := 5\<rparr>) \<and>
   activeModsOf 5 [''ctrl'', ''shift'', ''alt'', ''gui''] = [''ctrl'', ''alt''] \<and>
   generateStep exampleLayout ''base'' [exampleKey] [''ctrl'', ''shift'', ''alt'', ''gui''] 5 =
     Inr (exampleLayout\<lparr>ModifierMaps :=
              Some [''base'' \<mapsto> Some [''ctrl+alt'' \<mapsto>
                [exampleKey\<lparr>Label := [], ImageData := [], Description := [], Color := ''#e0e0e0'',
                            Modifiers := [''ctrl'', ''alt'']\<rparr>]]]\<rparr>)"
proof -
  have am: "activeModsOf 5 [''ctrl'', ''shift'', ''alt'', ''gui''] = [''ctrl'', ''alt'']"
    by (simp add: activeModsOf_def)
  have "activeModsOf 5 [''ctrl'', ''shift'', ''alt'', ''gui''] \<noteq> []"
    by (simp add: am)
  with fresh_variant_is_blank_clone[where kl = exampleLayout and layer = "''base''"
      and layers = "[''base'' \<mapsto> [exampleKey]]" and baseKeys = "[exampleKey]"
      and maps = "[''base'' \<mapsto> Some Map.empty]" and combos = Map.empty
      and activeModifiers = "[''shift'', ''ctrl'']" and now = 5
      and i = 5 and modifiers = "[''ctrl'', ''shift'', ''alt'', ''gui'']" and keys = "[exampleKey]"]
  show ?thesis
    by (simp add: am exampleLayout_def exampleKey_def comboKey_shift_ctrl sortedMods_shift_ctrl
        GetKeysForActiveModifiers_def generateStep_def mapIndex_def mapAssign_def mapWritten_def
        blankKeys_def blankKey_def)
qed

text \<open>
  Claim C3 as stated, that the position is reset to blank defaults, fails: the variant of
  a key with a custom position has that position, not \<open>(0, 0, false)\<close>.
\<close>

theorem fresh_variant_keeps_custom_position:
  "GetKeysForActiveModifiers 5 exampleLayout ''base'' [''ctrl''] =
     Inr ([ctrlVariantOfExampleKey],
          exampleLayout\<lparr>ModifierMaps :=
              Some [''base'' \<mapsto> Some [''ctrl'' \<mapsto> [ctrlVariantOfExampleKey]]],
            ModifiedAt := 5\<rparr>) \<and>
   CustomX ctrlVariantOfExampleKey = CustomX exampleKey \<and>
   CustomY ctrlVariantOfExampleKey = CustomY exampleKey \<and>
   IsCustomPosition ctrlVariantOfExampleKey = True \<and>
   CustomX ctrlVariantOfExampleKey \<noteq> 0 \<and> CustomY ctrlVariantOfExampleKey \<noteq> 0"
  by (simp add: exampleLayout_def exampleKey_def ctrlVariantOfExampleKey_def comboKey_ctrl
      sortedMods_ctrl GetKeysForActiveModifiers_def mapIndex_def mapAssign_def mapWritten_def
      blankKeys_def blankKey_def)

subsection \<open>Updating a key\<close>

text \<open>
  Claim C5. \<open>updateKey\<close> without modifiers: when the layer's canonical list holds a key
  with the given ID, the first such key (and nothing else) is replaced, \<open>modifiedAt\<close> is
  set and success is reported; when the layer is unknown or no key has the ID, not-found is
  reported and the layout is unchanged.
\<close>

theorem updateKey_replaces_or_reports_not_found:
  "(Layers kl = Some layers \<and> layers layer = Some keys \<and>
    i < length keys \<and> ID (keys ! i) = ID updatedKey \<and> (\<forall>j<i. ID (keys ! j) \<noteq> ID updatedKey) \<longrightarrow>
      UpdateKey now kl layer updatedKey =
        (True, kl\<lparr>Layers := Some (layers(layer \<mapsto> keys[i := updatedKey])), ModifiedAt := now\<rparr>)) \<and>
   (mapIndex (Layers kl) layer = None \<or>
    (\<exists>keys. mapIndex (Layers kl) layer = Some keys \<and> ID updatedKey \<notin> ID ` set keys) \<longrightarrow>
      UpdateKey now kl layer updatedKey = (False, kl))"
proof (intro conjI impI)
  assume a: "Layers kl = Some layers \<and> layers layer = Some keys \<and>
    i < length keys \<and> ID (keys ! i) = ID updatedKey \<and> (\<forall>j<i. ID (keys ! j) \<noteq> ID updatedKey)"
  then have "replaceByID updatedKey keys = Some (keys[i := updatedKey])"
    by (intro replaceByID_Some) simp_all
  with a show "UpdateKey now kl layer updatedKey =
        (True, kl\<lparr>Layers := Some (layers(layer \<mapsto> keys[i := updatedKey])), ModifiedAt := now\<rparr>)"
    by (simp add: UpdateKey_def mapIndex_def mapWritten_def)
next
  assume "mapIndex (Layers kl) layer = None \<or>
    (\<exists>keys. mapIndex (Layers kl) layer = Some keys \<and> ID updatedKey \<notin> ID ` set keys)"
  then show "UpdateKey now kl layer updatedKey = (False, kl)"
  proof
    assume "mapIndex (Layers kl) layer = None"
    then show ?thesis by (simp add: UpdateKey_def)
  next
    assume "\<exists>keys. mapIndex (Layers kl) layer = Some keys \<and> ID updatedKey \<notin> ID ` set keys"
    then obtain keys where k: "mapIndex (Layers kl) layer = Some keys" "ID updatedKey \<notin> ID ` set keys"
      by blast
    from k(2) have "replaceByID updatedKey keys = None" by (simp add: replaceByID_None)
    with k(1) show ?thesis by (simp add: UpdateKey_def)
  qed
qed

theorem updateKey_replaces_or_reports_not_found_witness:
  "UpdateKey 5 twoKeyLayout ''base'' (secondKey\<lparr>Label := ''E''\<rparr>) =
     (True, twoKeyLayout\<lparr>Layers := Some [''base'' \<mapsto> [exampleKey, secondKey\<lparr>Label := ''E''\<rparr>]],
                         ModifiedAt := 5\<rparr>) \<and>
   UpdateKey 5 twoKeyLayout ''base'' ghostKey = (False, twoKeyLayout) \<and>
   UpdateKey 5 twoKeyLayout ''nowhere'' exampleKey = (False, twoKeyLayout)"
proof -
  have l: "Layers twoKeyLayout = Some [''base'' \<mapsto> [exampleKey, secondKey]]"
    by (simp add: twoKeyLayout_def)
  from updateKey_replaces_or_reports_not_found[where kl = twoKeyLayout and layer = "''base''"
      and layers = "[''base'' \<mapsto> [exampleKey, secondKey]]"
      and keys = "[exampleKey, secondKey]" and i = 1 and updatedKey = "secondKey\<lparr>Label := ''E''\<rparr>"
      and now = 5]
    updateKey_replaces_or_reports_not_found[where kl = twoKeyLayout and layer = "''base''"
      and updatedKey = ghostKey and now = 5]
    updateKey_replaces_or_reports_not_found[where kl = twoKeyLayout and layer = "''nowhere''"
      and updatedKey = exampleKey and now = 5]
  show ?thesis
    by (simp add: l example_IDs mapIndex_def)
qed

text \<open>
  Claim C10, as amended. For every layer that has a canonical key list and a Combination
  Map, and every non-empty modifier set whose combo is not stored, \<open>updateKey\<close> under
  these modifiers with a key whose ID is not in the canonical list reports failure, and the
  blank variant it built has been stored: the layout has changed (its \<open>modifiedAt\<close> has
  not).
\<close>

theorem update_under_modifiers_not_atomic:
  assumes "Layers kl = Some layers" and "layers layer = Some baseKeys"
    and "ModifierMaps kl = Some maps" and "maps layer = Some (Some combos)"
    and "activeModifiers \<noteq> []" and "combos (comboKey activeModifiers) = None"
    and "ID updatedKey \<notin> ID ` set baseKeys"
  shows "UpdateModifierKeyByActiveModifiers now kl layer activeModifiers updatedKey =
           Inr (False,
                kl\<lparr>ModifierMaps :=
                     Some (maps(layer \<mapsto> Some (combos(comboKey activeModifiers \<mapsto>
                       blankKeys (sortedMods activeModifiers) baseKeys))))\<rparr>) \<and>
         kl\<lparr>ModifierMaps :=
              Some (maps(layer \<mapsto> Some (combos(comboKey activeModifiers \<mapsto>
                blankKeys (sortedMods activeModifiers) baseKeys))))\<rparr> \<noteq> kl"
proof
  show "UpdateModifierKeyByActiveModifiers now kl layer activeModifiers updatedKey =
           Inr (False,
                kl\<lparr>ModifierMaps :=
                     Some (maps(layer \<mapsto> Some (combos(comboKey activeModifiers \<mapsto>
                       blankKeys (sortedMods activeModifiers) baseKeys))))\<rparr>)"
    using assms replaceByID_blankKeys_None[OF assms(7), of "sortedMods activeModifiers"]
    by (simp add: UpdateModifierKeyByActiveModifiers_def mapIndex_def mapAssign_def
        mapWritten_def Let_def)
next
  let ?v = "blankKeys (sortedMods activeModifiers) baseKeys"
  show "kl\<lparr>ModifierMaps :=
              Some (maps(layer \<mapsto> Some (combos(comboKey activeModifiers \<mapsto> ?v))))\<rparr> \<noteq> kl"
  proof
    assume "kl\<lparr>ModifierMaps :=
              Some (maps(layer \<mapsto> Some (combos(comboKey activeModifiers \<mapsto> ?v))))\<rparr> = kl"
    then have "ModifierMaps (kl\<lparr>ModifierMaps :=
              Some (maps(layer \<mapsto> Some (combos(comboKey activeModifiers \<mapsto> ?v))))\<rparr>) = ModifierMaps kl"
      by simp
    then have "maps(layer \<mapsto> Some (combos(comboKey activeModifiers \<mapsto> ?v))) = maps"
      using assms(3) by simp
    then have "(maps(layer \<mapsto> Some (combos(comboKey activeModifiers \<mapsto> ?v)))) layer = maps layer"
      by simp
    then have "combos(comboKey activeModifiers \<mapsto> ?v) = combos"
      using assms(4) by simp
    then have "(combos(comboKey activeModifiers \<mapsto> ?v)) (comboKey activeModifiers) =
               combos (comboKey activeModifiers)"
      by simp
    then show False using assms(6) by simp
  qed
qed

theorem update_under_modifiers_not_atomic_witness:
  "UpdateModifierKeyByActiveModifiers 5 exampleLayout ''base'' [''shift'', ''ctrl''] ghostKey =
     Inr (False,
          exampleLayout\<lparr>ModifierMaps :=
              Some [''base'' \<mapsto> Some [''ctrl+shift'' \<mapsto> blankKeys [''ctrl'', ''shift''] [exampleKey]]]\<rparr>) \<and>
   exampleLayout\<lparr>ModifierMaps :=
              Some [''base'' \<mapsto> Some [''ctrl+shift'' \<mapsto> blankKeys [''ctrl'', ''shift''] [exampleKey]]]\<rparr>
     \<noteq> exampleLayout"
  using update_under_modifiers_not_atomic[where kl = exampleLayout and layer = "''base''"
      and layers = "[''base'' \<mapsto> [exampleKey]]" and baseKeys = "[exampleKey]"
      and maps = "[''base'' \<mapsto> Some Map.empty]" and combos = Map.empty
      and activeModifiers = "[''shift'', ''ctrl'']" and now = 5 and updatedKey = ghostKey]
  by (simp add: exampleLayout_def ghostKey_def exampleKey_def comboKey_shift_ctrl sortedMods_shift_ctrl)

text \<open>
  Claim C10 as stated, for every existing layer, fails: for a layer with a canonical list
  and no Combination Map the call reports failure and leaves the layout unchanged.
\<close>

theorem update_under_modifiers_layer_without_combination_map:
  "mapIndex (Layers importedLayout) ''base'' = Some [exampleKey] \<and>
   UpdateModifierKeyByActiveModifiers 5 importedLayout ''base'' [''ctrl''] ghostKey =
     Inr (False, importedLayout)"
  by (simp add: UpdateModifierKeyByActiveModifiers_def importedLayout_def mapIndex_def)

text \<open>
  In general: with modifiers active and no Combination Map entry for the layer, the update
  reports failure and writes nothing, whatever the key.
\<close>

lemma update_without_combination_map_entry:
  assumes "activeModifiers \<noteq> []" and "mapIndex (ModifierMaps kl) layer = None"
  shows "UpdateModifierKeyByActiveModifiers now kl layer activeModifiers updatedKey = Inr (False, kl)"
  using assms by (simp add: UpdateModifierKeyByActiveModifiers_def)

subsection \<open>Adding and removing layers\<close>

text \<open>
  Claim C4, as amended. \<open>addLayer\<close> on a layout whose tables are not nil registers the
  key list under the name and at once generates a blank variant for each of the fifteen
  non-empty subsets of the built-in modifiers; only these are generated.
\<close>

theorem addLayer_pregenerates_builtin_combinations:
  assumes "Layers kl = Some layers" and "ModifierMaps kl = Some maps"
  shows "AddCustomLayer now kl layerName baseKeys =
    Inr (kl\<lparr>Layers := Some (layers(layerName \<mapsto> baseKeys)),
            ModifierMaps := Some (maps(layerName \<mapsto> Some
              [''ctrl'' \<mapsto> blankKeys [''ctrl''] baseKeys,
               ''shift'' \<mapsto> blankKeys [''shift''] baseKeys,
               ''ctrl+shift'' \<mapsto> blankKeys [''ctrl'', ''shift''] baseKeys,
               ''alt'' \<mapsto> blankKeys [''alt''] baseKeys,
               ''ctrl+alt'' \<mapsto> blankKeys [''ctrl'', ''alt''] baseKeys,
               ''shift+alt'' \<mapsto> blankKeys [''shift'', ''alt''] baseKeys,
               ''ctrl+shift+alt'' \<mapsto> blankKeys [''ctrl'', ''shift'', ''alt''] baseKeys,
               ''gui'' \<mapsto> blankKeys [''gui''] baseKeys,
               ''ctrl+gui'' \<mapsto> blankKeys [''ctrl'', ''gui''] baseKeys,
               ''shift+gui'' \<mapsto> blankKeys [''shift'', ''gui''] baseKeys,
               ''ctrl+shift+gui'' \<mapsto> blankKeys [''ctrl'', ''shift'', ''gui''] baseKeys,
               ''alt+gui'' \<mapsto> blankKeys [''alt'', ''gui''] baseKeys,
               ''ctrl+alt+gui'' \<mapsto> blankKeys [''ctrl'', ''alt'', ''gui''] baseKeys,
               ''shift+alt+gui'' \<mapsto> blankKeys [''shift'', ''alt'', ''gui''] baseKeys,
               ''ctrl+shift+alt+gui'' \<mapsto> blankKeys [''ctrl'', ''shift'', ''alt'', ''gui''] baseKeys])),
            ModifiedAt := now\<rparr>)"
  using assms by (rule AddCustomLayer_eager)

theorem addLayer_pregenerates_builtin_combinations_witness:
  "(case AddCustomLayer 5 exampleLayout ''nav'' [secondKey] of
      Inl p \<Rightarrow> False
    | Inr kl' \<Rightarrow>
        mapIndex (Layers kl') ''nav'' = Some [secondKey] \<and>
        mapIndex (Layers kl') ''base'' = Some [exampleKey] \<and>
        ModifiedAt kl' = 5)"
  using addLayer_pregenerates_builtin_combinations[where kl = exampleLayout
      and layers = "[''base'' \<mapsto> [exampleKey]]" and maps = "[''base'' \<mapsto> Some Map.empty]"
      and now = 5 and layerName = "''nav''" and baseKeys = "[secondKey]"]
  by (simp add: exampleLayout_def mapIndex_def)

text \<open>
  Claim C4 as stated, that no combination is generated before the first access, fails:
  right after \<open>addLayer\<close> the new layer's Combination Map holds the variants.
\<close>

theorem addLayer_combinations_exist_before_access:
  "AddCustomLayer 5 exampleLayout ''nav'' [secondKey] =
     Inr (exampleLayout
          \<lparr>Layers := Some [''base'' \<mapsto> [exampleKey], ''nav'' \<mapsto> [secondKey]],
           ModifierMaps := Some [''base'' \<mapsto> Some Map.empty, ''nav'' \<mapsto> Some
              [''ctrl'' \<mapsto> blankKeys [''ctrl''] [secondKey],
               ''shift'' \<mapsto> blankKeys [''shift''] [secondKey],
               ''ctrl+shift'' \<mapsto> blankKeys [''ctrl'', ''shift''] [secondKey],
               ''alt'' \<mapsto> blankKeys [''alt''] [secondKey],
               ''ctrl+alt'' \<mapsto> blankKeys [''ctrl'', ''alt''] [secondKey],
               ''shift+alt'' \<mapsto> blankKeys [''shift'', ''alt''] [secondKey],
               ''ctrl+shift+alt'' \<mapsto> blankKeys [''ctrl'', ''shift'', ''alt''] [secondKey],
               ''gui'' \<mapsto> blankKeys [''gui''] [secondKey],
               ''ctrl+gui'' \<mapsto> blankKeys [''ctrl'', ''gui''] [secondKey],
               ''shift+gui'' \<mapsto> blankKeys [''shift'', ''gui''] [secondKey],
               ''ctrl+shift+gui'' \<mapsto> blankKeys [''ctrl'', ''shift'', ''gui''] [secondKey],
               ''alt+gui'' \<mapsto> blankKeys [''alt'', ''gui''] [secondKey],
               ''ctrl+alt+gui'' \<mapsto> blankKeys [''ctrl'', ''alt'', ''gui''] [secondKey],
               ''shift+alt+gui'' \<mapsto> blankKeys [''shift'', ''alt'', ''gui''] [secondKey],
               ''ctrl+shift+alt+gui'' \<mapsto>
                 blankKeys [''ctrl'', ''shift'', ''alt'', ''gui''] [secondKey]]],
           ModifiedAt := 5\<rparr>)"
  using AddCustomLayer_eager[where kl = exampleLayout
      and layers = "[''base'' \<mapsto> [exampleKey]]" and maps = "[''base'' \<mapsto> Some Map.empty]"
      and now = 5 and layerName = "''nav''" and baseKeys = "[secondKey]"]
  by (simp add: exampleLayout_def)

text \<open>
  Claim C6. \<open>removeLayer\<close> fails and leaves the layout unchanged when the name is
  \<open>base\<close>, \<open>lower\<close> or \<open>raise\<close>, or names no layer; for any other existing layer it
  succeeds and removes the canonical list and the layer's whole Combination Map, leaving
  the other layers as they were.
\<close>

theorem removeLayer_protected_or_unknown_fails:
  "(layerName \<in> {''base'', ''lower'', ''raise''} \<or> mapIndex (Layers kl) layerName = None \<longrightarrow>
      RemoveCustomLayer now kl layerName = (False, kl)) \<and>
   (layerName \<notin> {''base'', ''lower'', ''raise''} \<and> mapIndex (Layers kl) layerName \<noteq> None \<longrightarrow>
      (\<exists>kl'. RemoveCustomLayer now kl layerName = (True, kl') \<and>
         (\<forall>l. mapIndex (Layers kl') l = (if l = layerName then None else mapIndex (Layers kl) l)) \<and>
         (\<forall>l. mapIndex (ModifierMaps kl') l =
                (if l = layerName then None else mapIndex (ModifierMaps kl) l)) \<and>
         Name kl' = Name kl \<and> LayoutDescription kl' = LayoutDescription kl \<and>
         CreatedAt kl' = CreatedAt kl \<and> ModifiedAt kl' = now))"
  by (auto simp: RemoveCustomLayer_def mapIndex_def mapDelete_def split: option.splits)

theorem removeLayer_protected_or_unknown_fails_witness:
  "RemoveCustomLayer 5 threeLayerLayout ''base'' = (False, threeLayerLayout) \<and>
   RemoveCustomLayer 5 threeLayerLayout ''ghost'' = (False, threeLayerLayout) \<and>
   (\<exists>kl'. RemoveCustomLayer 5 threeLayerLayout ''nav'' = (True, kl') \<and>
      mapIndex (Layers kl') ''nav'' = None \<and> mapIndex (ModifierMaps kl') ''nav'' = None \<and>
      mapIndex (Layers kl') ''base'' = Some [exampleKey] \<and>
      mapIndex (ModifierMaps kl') ''base'' = Some (Some Map.empty))"
  using removeLayer_protected_or_unknown_fails[of "''base''" threeLayerLayout 5]
    removeLayer_protected_or_unknown_fails[of "''ghost''" threeLayerLayout 5]
    removeLayer_protected_or_unknown_fails[of "''nav''" threeLayerLayout 5]
  by (auto simp: threeLayerLayout_def mapIndex_def)


subsection \<open>Deleting a profile\<close>

lemma indexOfProfile_None:
  "indexOfProfile pid ps = None \<longleftrightarrow> pid \<notin> ProfileID ` set ps"
  by (induction ps) auto

lemma indexOfProfile_Some:
  assumes "i < length ps" "ProfileID (ps ! i) = pid" "\<forall>j<i. ProfileID (ps ! j) \<noteq> pid"
  shows "indexOfProfile pid ps = Some i"
  using assms
proof (induction ps arbitrary: i)
  case Nil
  then show ?case by simp
next
  case (Cons p ps)
  show ?case
  proof (cases i)
    case 0
    then show ?thesis using Cons.prems by simp
  next
    case (Suc n)
    have "ProfileID p \<noteq> pid" using Cons.prems(3) Suc by auto
    moreover have "indexOfProfile pid ps = Some n"
      using Cons.prems Suc by (intro Cons.IH) auto
    ultimately show ?thesis using Suc by simp
  qed
qed

lemma DeleteProfile_found:
  assumes "1 < length (Profiles pm)" "i < length (Profiles pm)"
    "ProfileID (Profiles pm ! i) = pid" "\<forall>j<i. ProfileID (Profiles pm ! j) \<noteq> pid"
  shows "DeleteProfile now pm pid =
    (None, pm\<lparr>ActiveProfile :=
                 (if ActiveProfile pm = pid then
                    (if i > 0 then ProfileID (Profiles pm ! (i - 1)) else ProfileID (Profiles pm ! (i + 1)))
                  else ActiveProfile pm),
               Profiles := take i (Profiles pm) @ drop (Suc i) (Profiles pm),
               LastModified := now\<rparr>)"
  using assms indexOfProfile_Some[OF assms(2,3,4)]
  by (simp add: DeleteProfile_def Let_def)

lemma remaining_neighbour:
  assumes "1 < length ps" "i < length ps"
  shows "(if i > 0 then ps ! (i - 1) else ps ! (i + 1)) \<in> set (take i ps @ drop (Suc i) ps)"
proof (cases "i > 0")
  case True
  have "take i ps ! (i - 1) \<in> set (take i ps)"
    using True assms(2) by (intro nth_mem) simp
  moreover have "take i ps ! (i - 1) = ps ! (i - 1)"
    using True by simp
  ultimately show ?thesis using True by simp
next
  case False
  then have i: "i = 0" by simp
  have "drop 1 ps ! 0 \<in> set (drop 1 ps)"
    using assms(1) by (intro nth_mem) simp
  moreover have "drop 1 ps ! 0 = ps ! 1"
    using assms(1) by simp
  ultimately show ?thesis using i by simp
qed

lemma other_remains:
  assumes "p \<in> set ps" "i < length ps" "p \<noteq> ps ! i"
  shows "p \<in> set (take i ps @ drop (Suc i) ps)"
proof -
  have "set ps = set (take i ps @ ps ! i # drop (Suc i) ps)"
    by (rule arg_cong[OF id_take_nth_drop[OF assms(2)]])
  then have "p \<in> set (take i ps @ ps ! i # drop (Suc i) ps)"
    using assms(1) by simp
  then show ?thesis using assms(3) by simp
qed

lemma example_profile_fields:
  "ProfileID workProfile = ''p1''" "ProfileID homeProfile = ''p2''"
  "ProfileName workProfile = ''Work''" "ProfileName homeProfile = ''Home''"
  "BackgroundColor workProfile = ''#10b981''" "BackgroundColor homeProfile = ''#10b981''"
  "Layouts workProfile = [exampleLayout]" "Layouts homeProfile = [exampleLayout]"
  "CurrentLayout workProfile = ''Corne''" "CurrentLayout homeProfile = ''Corne''"
  "CurrentLayer workProfile = ''base''" "CurrentLayer homeProfile = ''base''"
  by (simp_all add: workProfile_def homeProfile_def)

lemma example_layout_fields:
  "Name exampleLayout = ''Corne''"
  "mapIndex (Layers exampleLayout) ''base'' = Some [exampleKey]"
  "mapIndex (Layers exampleLayout) ''nav'' = None"
  by (simp_all add: exampleLayout_def mapIndex_def)

lemma example_generated_id: "formatInt (exampleClock (Suc 0)) = ''1700000000000000001''"
  by (simp add: exampleClock_def formatInt_def decimal.simps)

text \<open>
  Claim C9. Deleting a profile needs another profile to remain. With at most one profile
  the manager and the application return an error and leave the store (and the files) as
  they are; with more than one, an unknown id gives a not-found error and changes nothing,
  and a known id removes the first profile with that id, after which an active-profile
  pointer that referenced a profile still references one; the application then saves the
  store.
\<close>

theorem deleteProfile_needs_another_profile:
  "(length (Profiles pm) \<le> 1 \<longrightarrow>
      DeleteProfile now pm pid = (Some CannotDeleteLastProfile, pm) \<and>
      App_DeleteProfile now env \<lparr>profileManager = pm\<rparr> fs pid =
        (Some CannotDeleteLastProfile, \<lparr>profileManager = pm\<rparr>, fs)) \<and>
   (1 < length (Profiles pm) \<and> pid \<notin> ProfileID ` set (Profiles pm) \<longrightarrow>
      DeleteProfile now pm pid = (Some (ProfileNotFound pid), pm) \<and>
      App_DeleteProfile now env \<lparr>profileManager = pm\<rparr> fs pid =
        (Some (ProfileNotFound pid), \<lparr>profileManager = pm\<rparr>, fs)) \<and>
   (1 < length (Profiles pm) \<and> i < length (Profiles pm) \<and>
    ProfileID (Profiles pm ! i) = pid \<and> (\<forall>j<i. ProfileID (Profiles pm ! j) \<noteq> pid) \<longrightarrow>
      (\<exists>pm'. DeleteProfile now pm pid = (None, pm') \<and>
         Profiles pm' = take i (Profiles pm) @ drop (Suc i) (Profiles pm) \<and>
         LastModified pm' = now \<and>
         (ActiveProfile pm \<in> ProfileID ` set (Profiles pm) \<longrightarrow>
            ActiveProfile pm' \<in> ProfileID ` set (Profiles pm')) \<and>
         App_DeleteProfile now env \<lparr>profileManager = pm\<rparr> fs pid =
           SaveProfiles env \<lparr>profileManager = pm'\<rparr> fs))"
proof (intro conjI impI)
  assume "length (Profiles pm) \<le> 1"
  then show "DeleteProfile now pm pid = (Some CannotDeleteLastProfile, pm)"
    and "App_DeleteProfile now env \<lparr>profileManager = pm\<rparr> fs pid =
        (Some CannotDeleteLastProfile, \<lparr>profileManager = pm\<rparr>, fs)"
    by (simp_all add: DeleteProfile_def App_DeleteProfile_def)
next
  assume a: "1 < length (Profiles pm) \<and> pid \<notin> ProfileID ` set (Profiles pm)"
  then have "indexOfProfile pid (Profiles pm) = None" by (simp add: indexOfProfile_None)
  with a show "DeleteProfile now pm pid = (Some (ProfileNotFound pid), pm)"
    and "App_DeleteProfile now env \<lparr>profileManager = pm\<rparr> fs pid =
        (Some (ProfileNotFound pid), \<lparr>profileManager = pm\<rparr>, fs)"
    by (simp_all add: DeleteProfile_def App_DeleteProfile_def)
next
  assume a: "1 < length (Profiles pm) \<and> i < length (Profiles pm) \<and>
    ProfileID (Profiles pm ! i) = pid \<and> (\<forall>j<i. ProfileID (Profiles pm ! j) \<noteq> pid)"
  define ps where "ps = Profiles pm"
  define pm' where "pm' = pm\<lparr>ActiveProfile :=
                 (if ActiveProfile pm = pid then
                    (if i > 0 then ProfileID (ps ! (i - 1)) else ProfileID (ps ! (i + 1)))
                  else ActiveProfile pm),
               Profiles := take i ps @ drop (Suc i) ps,
               LastModified := now\<rparr>"
  have d: "DeleteProfile now pm pid = (None, pm')"
    unfolding pm'_def ps_def using a by (intro DeleteProfile_found) simp_all
  have len: "1 < length ps" "i < length ps" using a by (simp_all add: ps_def)
  have active: "ActiveProfile pm' \<in> ProfileID ` set (Profiles pm')"
    if v: "ActiveProfile pm \<in> ProfileID ` set (Profiles pm)"
  proof (cases "ActiveProfile pm = pid")
    case True
    have "ActiveProfile pm' = ProfileID (if i > 0 then ps ! (i - 1) else ps ! (i + 1))"
      using True by (simp add: pm'_def)
    then show ?thesis
      using remaining_neighbour[OF len] by (simp add: pm'_def)
  next
    case False
    from v obtain p where p: "p \<in> set ps" "ProfileID p = ActiveProfile pm"
      by (auto simp: ps_def)
    with False a have "p \<noteq> ps ! i" by (auto simp: ps_def)
    from other_remains[OF p(1) len(2) this]
    have "ProfileID p \<in> ProfileID ` set (take i ps @ drop (Suc i) ps)"
      by (rule imageI)
    then show ?thesis using p(2) False by (simp add: pm'_def)
  qed
  have app: "App_DeleteProfile now env \<lparr>profileManager = pm\<rparr> fs pid =
           SaveProfiles env \<lparr>profileManager = pm'\<rparr> fs"
    by (simp add: App_DeleteProfile_def d)
  show "\<exists>pm'. DeleteProfile now pm pid = (None, pm') \<and>
         Profiles pm' = take i (Profiles pm) @ drop (Suc i) (Profiles pm) \<and>
         LastModified pm' = now \<and>
         (ActiveProfile pm \<in> ProfileID ` set (Profiles pm) \<longrightarrow>
            ActiveProfile pm' \<in> ProfileID ` set (Profiles pm')) \<and>
         App_DeleteProfile now env \<lparr>profileManager = pm\<rparr> fs pid =
           SaveProfiles env \<lparr>profileManager = pm'\<rparr> fs"
    using d active app by (intro exI[of _ pm']) (simp add: pm'_def ps_def)
qed

theorem deleteProfile_needs_another_profile_witness:
  "DeleteProfile 5 oneProfile ''p1'' = (Some CannotDeleteLastProfile, oneProfile) \<and>
   DeleteProfile 5 twoProfiles ''ghost'' = (Some (ProfileNotFound ''ghost''), twoProfiles) \<and>
   DeleteProfile 5 twoProfiles ''p1'' =
     (None, \<lparr>Profiles = [homeProfile], ActiveProfile = ''p2'', LastModified = 5\<rparr>) \<and>
   App_DeleteProfile 5 exampleEnv \<lparr>profileManager = oneProfile\<rparr> exampleFiles ''p1'' =
     (Some CannotDeleteLastProfile, \<lparr>profileManager = oneProfile\<rparr>, exampleFiles)"
proof -
  have p: "Profiles oneProfile = [workProfile]" "Profiles twoProfiles = [workProfile, homeProfile]"
    "ActiveProfile twoProfiles = ''p1''"
    by (simp_all add: oneProfile_def twoProfiles_def)
  have d: "DeleteProfile 5 twoProfiles ''p1'' =
     (None, \<lparr>Profiles = [homeProfile], ActiveProfile = ''p2'', LastModified = 5\<rparr>)"
    by (simp add: DeleteProfile_def twoProfiles_def example_profile_fields)
  from deleteProfile_needs_another_profile[of oneProfile 5 "''p1''" exampleEnv exampleFiles 0]
    deleteProfile_needs_another_profile[of twoProfiles 5 "''ghost''" exampleEnv exampleFiles 0]
    deleteProfile_needs_another_profile[of twoProfiles 5 "''p1''" exampleEnv exampleFiles 0]
  show ?thesis
    by (simp add: p d example_profile_fields)
qed

subsection \<open>The repair pass\<close>

lemma validateProfile_Inl:
  "validateProfile t p = Inl e \<longleftrightarrow> Layouts p = [] \<and> e = ProfileHasNoLayouts (ProfileName p)"
  by (auto simp: validateProfile_def Let_def)

lemma list_ex_Name: "list_ex (\<lambda>layout. Name layout = n) ls \<longleftrightarrow> n \<in> Name ` set ls"
  by (auto simp: list_ex_iff)

lemma list_ex_ProfileID:
  "list_ex (\<lambda>profile. ProfileID profile = a) ps \<longleftrightarrow> a \<in> ProfileID ` set ps"
  by (auto simp: list_ex_iff)

lemma if_update_Profile:
  "(if c then p\<lparr>CurrentLayout := a\<rparr> else p) = p\<lparr>CurrentLayout := (if c then a else CurrentLayout p)\<rparr>"
  "(if c then p\<lparr>CurrentLayer := a\<rparr> else p) = p\<lparr>CurrentLayer := (if c then a else CurrentLayer p)\<rparr>"
  "(if c then p\<lparr>ProfileID := a\<rparr> else p) = p\<lparr>ProfileID := (if c then a else ProfileID p)\<rparr>"
  "(if c then p\<lparr>ProfileName := a\<rparr> else p) = p\<lparr>ProfileName := (if c then a else ProfileName p)\<rparr>"
  "(if c then p\<lparr>BackgroundColor := a\<rparr> else p) =
     p\<lparr>BackgroundColor := (if c then a else BackgroundColor p)\<rparr>"
  by simp_all

lemma validateProfile_Inr:
  assumes "Layouts p \<noteq> []"
  shows "\<exists>p'. validateProfile t p = Inr p' \<and> repairOf t p p'"
proof -
  define layout where
    "layout = (if CurrentLayout p \<in> Name ` set (Layouts p) then CurrentLayout p
               else Name (hd (Layouts p)))"
  define layer where
    "layer = (case find (\<lambda>l. Name l = layout) (Layouts p) of
                Some l \<Rightarrow> if mapIndex (Layers l) (CurrentLayer p) = None then ''base'' else CurrentLayer p
              | None \<Rightarrow> CurrentLayer p)"
  define p' where
    "p' = p\<lparr>CurrentLayout := layout, CurrentLayer := layer,
            ProfileID := (if ProfileID p = [] then ''profile_'' @ formatInt t else ProfileID p),
            ProfileName := (if ProfileName p = [] then ''Unnamed Profile'' else ProfileName p),
            BackgroundColor := (if BackgroundColor p = [] then ''#6366f1'' else BackgroundColor p)\<rparr>"
  have hd0: "Layouts p ! 0 = hd (Layouts p)"
    using assms by (simp add: hd_conv_nth)
  have p1: "(if \<not> list_ex (\<lambda>l. Name l = CurrentLayout p) (Layouts p)
             then p\<lparr>CurrentLayout := Name (Layouts p ! 0)\<rparr> else p) = p\<lparr>CurrentLayout := layout\<rparr>"
    by (simp add: layout_def list_ex_Name hd0)
  have p2: "(case find (\<lambda>l. Name l = CurrentLayout (p\<lparr>CurrentLayout := layout\<rparr>))
                   (Layouts (p\<lparr>CurrentLayout := layout\<rparr>)) of
               Some l \<Rightarrow>
                 (if mapIndex (Layers l) (CurrentLayer (p\<lparr>CurrentLayout := layout\<rparr>)) = None
                  then p\<lparr>CurrentLayout := layout\<rparr>\<lparr>CurrentLayer := ''base''\<rparr>
                  else p\<lparr>CurrentLayout := layout\<rparr>)
             | None \<Rightarrow> p\<lparr>CurrentLayout := layout\<rparr>) =
            p\<lparr>CurrentLayout := layout, CurrentLayer := layer\<rparr>"
    by (simp add: layer_def split: option.split)
  have v: "validateProfile t p = Inr p'"
    using assms unfolding validateProfile_def Let_def p1 p2 p'_def
    by (simp add: if_update_Profile)
  have r: "repairOf t p p'"
    unfolding repairOf_def by (simp add: p'_def layout_def layer_def)
  from v r show ?thesis by blast
qed

lemma validateLoop_ok:
  assumes "\<forall>k. i \<le> k \<and> k < length (Profiles pm) \<longrightarrow> Layouts (Profiles pm ! k) \<noteq> []"
  shows "\<exists>ps'. validateLoop clock i pm = (None, pm\<lparr>Profiles := ps'\<rparr>) \<and>
           length ps' = length (Profiles pm) \<and>
           (\<forall>k<i. ps' ! k = Profiles pm ! k) \<and>
           (\<forall>k. i \<le> k \<and> k < length (Profiles pm) \<longrightarrow>
                validateProfile (clock k) (Profiles pm ! k) = Inr (ps' ! k))"
  using assms
proof (induction clock i pm rule: validateLoop.induct)
  case (1 clock i pm)
  let ?ps = "Profiles pm"
  show ?case
  proof (cases "i < length ?ps")
    case True
    with "1.prems" have "Layouts (?ps ! i) \<noteq> []" by simp
    then obtain p where p: "validateProfile (clock i) (?ps ! i) = Inr p"
      using validateProfile_Inr by blast
    let ?pm1 = "pm\<lparr>Profiles := ?ps[i := p]\<rparr>"
    have unfold: "validateLoop clock i pm = validateLoop clock (i + 1) ?pm1"
      using True p by (subst validateLoop.simps) simp
    have "\<forall>k. i + 1 \<le> k \<and> k < length (Profiles ?pm1) \<longrightarrow> Layouts (Profiles ?pm1 ! k) \<noteq> []"
      using "1.prems" by simp
    from "1.IH"[OF True p this]
    obtain ps' where ih:
      "validateLoop clock (i + 1) ?pm1 = (None, ?pm1\<lparr>Profiles := ps'\<rparr>)"
      "length ps' = length (Profiles ?pm1)"
      "\<forall>k<i + 1. ps' ! k = Profiles ?pm1 ! k"
      "\<forall>k. i + 1 \<le> k \<and> k < length (Profiles ?pm1) \<longrightarrow>
           validateProfile (clock k) (Profiles ?pm1 ! k) = Inr (ps' ! k)"
      by blast
    have a: "validateLoop clock i pm = (None, pm\<lparr>Profiles := ps'\<rparr>)"
      using unfold ih(1) by simp
    have b: "length ps' = length ?ps" using ih(2) by simp
    have c: "\<forall>k<i. ps' ! k = ?ps ! k"
    proof (intro allI impI)
      fix k assume "k < i"
      then have "ps' ! k = ?ps[i := p] ! k" using ih(3) by simp
      then show "ps' ! k = ?ps ! k" using \<open>k < i\<close> by simp
    qed
    have d: "\<forall>k. i \<le> k \<and> k < length ?ps \<longrightarrow> validateProfile (clock k) (?ps ! k) = Inr (ps' ! k)"
    proof (intro allI impI)
      fix k assume k: "i \<le> k \<and> k < length ?ps"
      show "validateProfile (clock k) (?ps ! k) = Inr (ps' ! k)"
      proof (cases "k = i")
        case True
        have "ps' ! i = ?ps[i := p] ! i" using ih(3) by simp
        then have "ps' ! i = p" using \<open>i < length ?ps\<close> by simp
        then show ?thesis using True p by simp
      next
        case False
        then have "i + 1 \<le> k \<and> k < length (Profiles ?pm1)" using k by simp
        with ih(4) have "validateProfile (clock k) (Profiles ?pm1 ! k) = Inr (ps' ! k)" by blast
        then show ?thesis using False by simp
      qed
    qed
    from a b c d show ?thesis by blast
  next
    case False
    then have "validateLoop clock i pm = (None, pm)" by (subst validateLoop.simps) simp
    then have "validateLoop clock i pm = (None, pm\<lparr>Profiles := ?ps\<rparr>)" by simp
    moreover have "\<forall>k. i \<le> k \<and> k < length ?ps \<longrightarrow>
        validateProfile (clock k) (?ps ! k) = Inr (?ps ! k)"
      using False by auto
    ultimately show ?thesis by (intro exI[of _ ?ps]) simp
  qed
qed

lemma validateLoop_no_layouts:
  assumes "i \<le> k" "k < length (Profiles pm)" "Layouts (Profiles pm ! k) = []"
  shows "\<exists>name pm'. validateLoop clock i pm = (Some (ProfileHasNoLayouts name), pm')"
  using assms
proof (induction clock i pm rule: validateLoop.induct)
  case (1 clock i pm)
  let ?ps = "Profiles pm"
  have i: "i < length ?ps" using "1.prems" by simp
  show ?case
  proof (cases "validateProfile (clock i) (?ps ! i)")
    case (Inl e)
    then have "e = ProfileHasNoLayouts (ProfileName (?ps ! i))"
      by (simp add: validateProfile_Inl)
    then show ?thesis using Inl i by (subst validateLoop.simps) simp
  next
    case (Inr p)
    then have "Layouts (?ps ! i) \<noteq> []"
      using validateProfile_Inl[of "clock i" "?ps ! i"] by auto
    then have "k \<noteq> i" using "1.prems"(3) by auto
    then have "i + 1 \<le> k" using "1.prems"(1) by simp
    moreover have "k < length (Profiles (pm\<lparr>Profiles := ?ps[i := p]\<rparr>))"
      using "1.prems"(2) by simp
    moreover have "Layouts (Profiles (pm\<lparr>Profiles := ?ps[i := p]\<rparr>) ! k) = []"
      using "1.prems"(3) \<open>k \<noteq> i\<close> by simp
    ultimately obtain name pm' where
      "validateLoop clock (i + 1) (pm\<lparr>Profiles := ?ps[i := p]\<rparr>) = (Some (ProfileHasNoLayouts name), pm')"
      using "1.IH"[OF i Inr] by blast
    then show ?thesis using Inr i by (subst validateLoop.simps) simp
  qed
qed

lemma validateProfiles_ok:
  assumes "Profiles pm \<noteq> []" and "\<forall>p\<in>set (Profiles pm). Layouts p \<noteq> []"
  shows "\<exists>ps'. validateProfiles clock (Some pm) =
           (None, Some (pm\<lparr>ActiveProfile :=
                             (if ActiveProfile pm \<in> ProfileID ` set (Profiles pm) then ActiveProfile pm
                              else ProfileID (hd (Profiles pm))),
                           Profiles := ps'\<rparr>)) \<and>
         length ps' = length (Profiles pm) \<and>
         (\<forall>i<length (Profiles pm). repairOf (clock i) (Profiles pm ! i) (ps' ! i))"
proof -
  let ?ps = "Profiles pm"
  define pm1 where
    "pm1 = (if \<not> list_ex (\<lambda>profile. ProfileID profile = ActiveProfile pm) ?ps
            then pm\<lparr>ActiveProfile := ProfileID (?ps ! 0)\<rparr> else pm)"
  have ps1: "Profiles pm1 = ?ps" by (simp add: pm1_def)
  have hd0: "?ps ! 0 = hd ?ps" using assms(1) by (simp add: hd_conv_nth)
  have pm1': "pm1 = pm\<lparr>ActiveProfile :=
      (if ActiveProfile pm \<in> ProfileID ` set ?ps then ActiveProfile pm else ProfileID (hd ?ps))\<rparr>"
    by (simp add: pm1_def list_ex_ProfileID hd0)
  have "\<forall>k. 0 \<le> k \<and> k < length (Profiles pm1) \<longrightarrow> Layouts (Profiles pm1 ! k) \<noteq> []"
    using assms(2) by (simp add: ps1)
  from validateLoop_ok[OF this, of clock]
  obtain ps' where l0:
    "validateLoop clock 0 pm1 = (None, pm1\<lparr>Profiles := ps'\<rparr>) \<and>
     length ps' = length (Profiles pm1) \<and>
     (\<forall>k<0. ps' ! k = Profiles pm1 ! k) \<and>
     (\<forall>k. 0 \<le> k \<and> k < length (Profiles pm1) \<longrightarrow>
          validateProfile (clock k) (Profiles pm1 ! k) = Inr (ps' ! k))"
    by (elim exE)
  have l:
    "validateLoop clock 0 pm1 = (None, pm1\<lparr>Profiles := ps'\<rparr>)"
    "length ps' = length ?ps"
    "\<forall>k. 0 \<le> k \<and> k < length ?ps \<longrightarrow> validateProfile (clock k) (?ps ! k) = Inr (ps' ! k)"
    using l0 unfolding ps1 by (rule conjunct1, rule conjunct2[THEN conjunct1],
      rule conjunct2[THEN conjunct2, THEN conjunct2])
  have v: "validateProfiles clock (Some pm) = (None, Some (pm1\<lparr>Profiles := ps'\<rparr>))"
    using assms(1) l(1) by (simp add: validateProfiles_def Let_def pm1_def)
  have r: "\<forall>i<length ?ps. repairOf (clock i) (?ps ! i) (ps' ! i)"
  proof (intro allI impI)
    fix i assume i: "i < length ?ps"
    then have "Layouts (?ps ! i) \<noteq> []" using assms(2) by simp
    from validateProfile_Inr[OF this, of "clock i"] obtain p' where
      "validateProfile (clock i) (?ps ! i) = Inr p'" "repairOf (clock i) (?ps ! i) p'" by blast
    moreover have "validateProfile (clock i) (?ps ! i) = Inr (ps' ! i)" using l(3) i by simp
    ultimately show "repairOf (clock i) (?ps ! i) (ps' ! i)" by simp
  qed
  show ?thesis
    using v l(2) r unfolding pm1' by (intro exI[of _ ps']) simp
qed

lemma validate_damagedStore:
  "validateProfiles exampleClock (Some damagedStore) = (None, Some repairedStore)"
  by (simp add: validateProfiles_def validateLoop.simps validateProfile_def Let_def
      damagedStore_def repairedStore_def example_profile_fields example_layout_fields
      example_generated_id)

text \<open>
  Claim C7, as amended. The repair pass over a parsed store reports an error when there is
  no profile, and also when some profile has no layouts. Otherwise it succeeds: an active
  profile that names a profile is kept, one that names none becomes the id of the first
  profile (stated here for a first profile whose id is not empty); every profile is repaired
  as \<open>repairOf\<close> says (current layout, current layer, id, name, background colour); and
  nothing else in the store changes, so no profile, name or layout is lost.
\<close>

theorem validateProfiles_repairs_store:
  "(Profiles pm = [] \<longrightarrow> validateProfiles clock (Some pm) = (Some NoProfilesFound, Some pm)) \<and>
   (Profiles pm \<noteq> [] \<and> (\<exists>p\<in>set (Profiles pm). Layouts p = []) \<longrightarrow>
      (\<exists>name pm'. validateProfiles clock (Some pm) = (Some (ProfileHasNoLayouts name), Some pm'))) \<and>
   (Profiles pm \<noteq> [] \<and> (\<forall>p\<in>set (Profiles pm). Layouts p \<noteq> []) \<longrightarrow>
      (\<exists>pm'. validateProfiles clock (Some pm) = (None, Some pm') \<and>
         (ActiveProfile pm \<in> ProfileID ` set (Profiles pm) \<longrightarrow> ActiveProfile pm' = ActiveProfile pm) \<and>
         (ActiveProfile pm \<notin> ProfileID ` set (Profiles pm) \<and> ProfileID (hd (Profiles pm)) \<noteq> [] \<longrightarrow>
            ActiveProfile pm' = ProfileID (hd (Profiles pm'))) \<and>
         pm' = pm\<lparr>ActiveProfile := ActiveProfile pm', Profiles := Profiles pm'\<rparr> \<and>
         length (Profiles pm') = length (Profiles pm) \<and>
         (\<forall>i<length (Profiles pm). repairOf (clock i) (Profiles pm ! i) (Profiles pm' ! i))))"
proof (intro conjI impI)
  assume "Profiles pm = []"
  then show "validateProfiles clock (Some pm) = (Some NoProfilesFound, Some pm)"
    by (simp add: validateProfiles_def)
next
  assume a: "Profiles pm \<noteq> [] \<and> (\<exists>p\<in>set (Profiles pm). Layouts p = [])"
  then obtain k where k: "k < length (Profiles pm)" "Layouts (Profiles pm ! k) = []"
    by (auto simp: in_set_conv_nth)
  define pm1 where
    "pm1 = (if \<not> list_ex (\<lambda>profile. ProfileID profile = ActiveProfile pm) (Profiles pm)
            then pm\<lparr>ActiveProfile := ProfileID (Profiles pm ! 0)\<rparr> else pm)"
  have ps1: "Profiles pm1 = Profiles pm" by (simp add: pm1_def)
  have "0 \<le> k" "k < length (Profiles pm1)" "Layouts (Profiles pm1 ! k) = []"
    using k by (simp_all add: ps1)
  from validateLoop_no_layouts[OF this, of clock] obtain name pm' where
    "validateLoop clock 0 pm1 = (Some (ProfileHasNoLayouts name), pm')" by blast
  then have "validateProfiles clock (Some pm) = (Some (ProfileHasNoLayouts name), Some pm')"
    using a by (simp add: validateProfiles_def Let_def pm1_def)
  then show "\<exists>name pm'. validateProfiles clock (Some pm) = (Some (ProfileHasNoLayouts name), Some pm')"
    by blast
next
  assume a: "Profiles pm \<noteq> [] \<and> (\<forall>p\<in>set (Profiles pm). Layouts p \<noteq> [])"
  let ?ps = "Profiles pm"
  from a validateProfiles_ok[of pm clock] obtain ps' where ok:
    "validateProfiles clock (Some pm) =
       (None, Some (pm\<lparr>ActiveProfile :=
                         (if ActiveProfile pm \<in> ProfileID ` set ?ps then ActiveProfile pm
                          else ProfileID (hd ?ps)),
                       Profiles := ps'\<rparr>))"
    "length ps' = length ?ps"
    "\<forall>i<length ?ps. repairOf (clock i) (?ps ! i) (ps' ! i)"
    by blast
  define pm' where "pm' = pm\<lparr>ActiveProfile :=
                         (if ActiveProfile pm \<in> ProfileID ` set ?ps then ActiveProfile pm
                          else ProfileID (hd ?ps)),
                       Profiles := ps'\<rparr>"
  have first: "ProfileID (hd ps') = ProfileID (hd ?ps)" if "ProfileID (hd ?ps) \<noteq> []"
  proof -
    have "0 < length ?ps" using a by simp
    with ok(3) have "repairOf (clock 0) (?ps ! 0) (ps' ! 0)" by blast
    then have "ProfileID (ps' ! 0) =
        (if ProfileID (?ps ! 0) = [] then ''profile_'' @ formatInt (clock 0) else ProfileID (?ps ! 0))"
      by (simp add: repairOf_def)
    moreover have "?ps ! 0 = hd ?ps" using a by (simp add: hd_conv_nth)
    moreover have "ps' \<noteq> []" using a ok(2) by auto
    then have "ps' ! 0 = hd ps'" by (simp add: hd_conv_nth)
    ultimately show ?thesis using that \<open>ps' ! 0 = hd ps'\<close> by simp
  qed
  show "\<exists>pm'. validateProfiles clock (Some pm) = (None, Some pm') \<and>
         (ActiveProfile pm \<in> ProfileID ` set (Profiles pm) \<longrightarrow> ActiveProfile pm' = ActiveProfile pm) \<and>
         (ActiveProfile pm \<notin> ProfileID ` set (Profiles pm) \<and> ProfileID (hd (Profiles pm)) \<noteq> [] \<longrightarrow>
            ActiveProfile pm' = ProfileID (hd (Profiles pm'))) \<and>
         pm' = pm\<lparr>ActiveProfile := ActiveProfile pm', Profiles := Profiles pm'\<rparr> \<and>
         length (Profiles pm') = length (Profiles pm) \<and>
         (\<forall>i<length (Profiles pm). repairOf (clock i) (Profiles pm ! i) (Profiles pm' ! i))"
    using ok first by (intro exI[of _ pm']) (simp add: pm'_def)
qed

theorem validateProfiles_repairs_store_witness:
  "validateProfiles exampleClock (Some emptyStore) = (Some NoProfilesFound, Some emptyStore) \<and>
   validateProfiles exampleClock (Some damagedStore) = (None, Some repairedStore) \<and>
   ActiveProfile damagedStore = ''ghost'' \<and> ActiveProfile repairedStore = ''p1'' \<and>
   map ProfileID (Profiles repairedStore) = [''p1'', ''profile_1700000000000000001'']"
proof -
  have e: "Profiles emptyStore = []" by (simp add: emptyStore_def)
  have r: "map ProfileID (Profiles repairedStore) = [''p1'', ''profile_1700000000000000001'']"
    "ActiveProfile damagedStore = ''ghost''" "ActiveProfile repairedStore = ''p1''"
    by (simp_all add: repairedStore_def damagedStore_def example_profile_fields)
  from validateProfiles_repairs_store[of emptyStore exampleClock]
    validateProfiles_repairs_store[of damagedStore exampleClock]
  show ?thesis
    by (simp add: e r validate_damagedStore)
qed

text \<open>
  Claim C7 as stated, that the pass errors on zero profiles and otherwise fills missing
  fields instead of rejecting, fails: a store whose only profile has no layouts (and no
  id) is rejected, and its missing id is not filled.
\<close>

theorem validateProfiles_rejects_profile_without_layouts:
  "ProfileID (hd (Profiles noLayoutsStore)) = [] \<and>
   validateProfiles exampleClock (Some noLayoutsStore) =
     (Some (ProfileHasNoLayouts ''Work''), Some noLayoutsStore)"
  by (simp add: validateProfiles_def validateLoop.simps validateProfile_def Let_def
      noLayoutsStore_def example_profile_fields)

text \<open>
  The first profile's id is read before missing ids are filled: when the active profile
  names no profile and the first profile's id is empty, the pointer receives the empty id
  and the profile then gets a generated one.
\<close>

lemma validateProfiles_empty_first_id:
  "validateProfiles exampleClock
     (Some \<lparr>Profiles = [workProfile\<lparr>ProfileID := []\<rparr>], ActiveProfile = ''ghost'', LastModified = 1\<rparr>) =
   (None,
    Some \<lparr>Profiles = [workProfile\<lparr>ProfileID := ''profile_1700000000000000000''\<rparr>],
           ActiveProfile = [], LastModified = 1\<rparr>)"
  by (simp add: validateProfiles_def validateLoop.simps validateProfile_def Let_def
      example_profile_fields example_layout_fields exampleClock_def formatInt_def decimal.simps)

subsection \<open>Saving\<close>

lemma SaveProfiles_no_home:
  "userHomeDir env = None \<Longrightarrow> SaveProfiles env a fs = (Some HomeDirectoryFailed, a, fs)"
  by (simp add: SaveProfiles_def ensureConfigDir_def getConfigFilePath_def)












end
